theory Spec2Isabelle
  imports Complex_Main
begin

section \<open>Data model of \<open>stock.inventory\<close> and \<open>stock.inventory.line\<close>\<close>

text \<open>
  A shallow embedding of \<open>addons/stock/models/stock_inventory.py\<close>.
  Record ids are natural numbers; the ids of stored records are positive, so an id is
  never falsy in Python and \<open>x and x.id or False\<close> is \<open>x.id\<close>.
  A many2one field is \<open>rid option\<close>: \<open>None\<close> is the
  empty recordset, whose \<open>.id\<close> is Python's \<open>False\<close>. Quantities (Python floats)
  are idealised as reals; timestamps and dates are natural numbers.
  The tables of the record store are lists in the store's order; every method returns
  its outcome (\<open>Inl\<close> an exception, \<open>Inr\<close> a value) together with the store
  as it is when the method returns or raises.
\<close>

type_synonym rid = nat
type_synonym many2one = "rid option"

datatype inv_state = Draft | Cancel | Confirm | Done

datatype prefill = Counted | Zero

text \<open>\<open>product.tracking\<close>: \<open>'none'\<close>, \<open>'lot'\<close> or \<open>'serial'\<close>.\<close>
datatype tracking_kind = Track_none | Track_lot | Track_serial

datatype loc_usage = Internal | Transit | Other_usage

datatype move_state = Move_draft | Move_confirmed | Move_cancel | Move_done

datatype error =
    UserError_not_manager
  | UserError_cannot_validate string
  | UserError_negative_qty many2one real
  | UserError_duplicate_line
  | ValidationError_not_storable many2one
  | Required_field_missing

record inventory =
  inv_id :: rid
  name :: string
  date :: nat
  state :: inv_state
  company_id :: many2one
  location_ids :: "rid list"
  product_ids :: "rid list"
  start_empty :: bool
  prefill_counted_quantity :: prefill
  exhausted :: bool
  is_conflict_inventory :: bool
  lot_ids :: "rid list"
  create_date :: nat

record inventory_line =
  line_id :: rid
  inventory_id :: many2one
  partner_id :: many2one
  product_id :: many2one
  product_uom_id :: many2one
  product_qty :: real
  location_id :: many2one
  package_id :: many2one
  prod_lot_id :: many2one
  theoretical_qty :: real
  inventory_date :: nat

text \<open>The single \<open>move_line_ids\<close> entry of the values built by \<open>_get_move_values\<close>.\<close>
record move_line =
  ml_product_id :: many2one
  ml_lot_id :: many2one
  ml_product_uom_qty :: real
  ml_product_uom_id :: many2one
  ml_qty_done :: real
  ml_package_id :: many2one
  ml_result_package_id :: many2one
  ml_location_id :: many2one
  ml_location_dest_id :: many2one
  ml_owner_id :: many2one

text \<open>The dictionary returned by \<open>_get_move_values\<close>, key by key.\<close>
record move_vals =
  mv_name :: string
  mv_product_id :: many2one
  mv_product_uom :: many2one
  mv_product_uom_qty :: real
  mv_date :: "nat option"
  mv_company_id :: many2one
  mv_inventory_id :: many2one
  mv_state :: move_state
  mv_restrict_partner_id :: many2one
  mv_location_id :: many2one
  mv_location_dest_id :: many2one
  mv_move_line_ids :: "move_line list"

text \<open>A stored \<open>stock.move\<close>: its id and its values.\<close>
record stock_move =
  move_id :: rid
  move_values :: move_vals

record location =
  loc_id :: rid
  loc_name :: string
  loc_company_id :: many2one
  usage :: loc_usage
  loc_active :: bool
  parent_path :: "rid list"
  next_inventory_date :: "nat option"
  last_inventory_date :: "nat option"

record quant =
  q_company_id :: many2one
  q_location_id :: many2one
  q_product_id :: many2one
  q_lot_id :: many2one
  q_package_id :: many2one
  q_owner_id :: many2one
  quantity :: real

text \<open>
  What the module reads from models it does not define (\<open>product.product\<close>,
  \<open>uom.uom\<close>, \<open>stock.production.lot\<close>, \<open>stock.warehouse\<close>, the user's groups,
  the clock): parameters of the embedding. Each function takes the many2one value
  it is read through, so the value read through an empty recordset is the parameter's.
\<close>
record env =
  uom_id :: "many2one \<Rightarrow> many2one"
  rounding :: "many2one \<Rightarrow> real"
  category_id :: "many2one \<Rightarrow> many2one"
  tracking :: "many2one \<Rightarrow> tracking_kind"
  product_active :: "many2one \<Rightarrow> bool"
  product_type_is_product :: "many2one \<Rightarrow> bool"
  lot_product_id :: "many2one \<Rightarrow> many2one"
  property_stock_inventory :: "many2one \<Rightarrow> many2one \<Rightarrow> many2one"
  get_theoretical_quantity ::
    "many2one \<Rightarrow> many2one \<Rightarrow> many2one \<Rightarrow> many2one \<Rightarrow> many2one \<Rightarrow> many2one \<Rightarrow> real"
  storable_product_ids :: "many2one \<Rightarrow> rid list"
  warehouse_lot_stock_ids :: "many2one \<Rightarrow> rid list"
  group_stock_manager :: bool
  group_stock_multi_locations :: bool
  now :: nat
  today :: nat
  today_start :: nat

record db =
  inventories :: "inventory list"
  lines :: "inventory_line list"
  moves :: "stock_move list"
  locations :: "location list"
  quants :: "quant list"
  next_line_id :: rid
  next_move_id :: rid
  next_inventory_id :: rid

type_synonym 'a outcome = "(error + 'a) \<times> db"

section \<open>Inventory lines: related fields, duplicate check, create and write\<close>

definition browse_inventory :: "db \<Rightarrow> many2one \<Rightarrow> inventory option" where
  "browse_inventory d i =
     (case i of None \<Rightarrow> None | Some k \<Rightarrow> find (\<lambda>v. inv_id v = k) (inventories d))"

text \<open>\<open>state = fields.Selection(related='inventory_id.state')\<close>; \<open>None\<close> is \<open>False\<close>.\<close>
definition line_state :: "db \<Rightarrow> inventory_line \<Rightarrow> inv_state option" where
  "line_state d l = map_option state (browse_inventory d (inventory_id l))"

text \<open>\<open>company_id = fields.Many2one(related='inventory_id.company_id')\<close>.\<close>
definition line_company_id :: "db \<Rightarrow> inventory_line \<Rightarrow> many2one" where
  "line_company_id d l =
     (case browse_inventory d (inventory_id l) of None \<Rightarrow> None | Some v \<Rightarrow> company_id v)"

definition browse_lines :: "db \<Rightarrow> rid list \<Rightarrow> inventory_line list" where
  "browse_lines d ids = concat (map (\<lambda>i. filter (\<lambda>l. line_id l = i) (lines d)) ids)"

text \<open>The search domain of \<open>_check_no_duplicate_line\<close> for \<open>line\<close>, as a predicate on
  a stored line \<open>x\<close>.\<close>
definition duplicate_domain :: "inventory_line \<Rightarrow> inventory_line \<Rightarrow> bool" where
  "duplicate_domain line x \<longleftrightarrow>
     line_id x \<noteq> line_id line \<and>
     product_id x = product_id line \<and>
     location_id x = location_id line \<and>
     partner_id x = partner_id line \<and>
     package_id x = package_id line \<and>
     prod_lot_id x = prod_lot_id line \<and>
     inventory_id x = inventory_id line"

fun check_no_duplicate_line :: "db \<Rightarrow> inventory_line list \<Rightarrow> error option" where
  "check_no_duplicate_line d [] = None"
| "check_no_duplicate_line d (line # rest) =
     (let existings = length (filter (duplicate_domain line) (lines d))
      in if existings \<noteq> 0 then Some UserError_duplicate_line
         else check_no_duplicate_line d rest)"

text \<open>\<open>_check_product_id\<close>, the constraint on \<open>product_id\<close>.\<close>
fun check_product_id :: "env \<Rightarrow> inventory_line list \<Rightarrow> error option" where
  "check_product_id e [] = None"
| "check_product_id e (line # rest) =
     (if \<not> product_type_is_product e (product_id line)
      then Some (ValidationError_not_storable (product_id line))
      else check_product_id e rest)"

text \<open>The dictionary passed to \<open>write\<close>: \<open>Some v\<close> when the key is present.\<close>
record line_write =
  w_inventory_id :: "many2one option"
  w_partner_id :: "many2one option"
  w_product_id :: "many2one option"
  w_product_uom_id :: "many2one option"
  w_product_qty :: "real option"
  w_location_id :: "many2one option"
  w_package_id :: "many2one option"
  w_prod_lot_id :: "many2one option"
  w_theoretical_qty :: "real option"
  w_inventory_date :: "nat option"

definition no_write :: line_write where
  "no_write = \<lparr> w_inventory_id = None, w_partner_id = None, w_product_id = None,
     w_product_uom_id = None, w_product_qty = None, w_location_id = None,
     w_package_id = None, w_prod_lot_id = None, w_theoretical_qty = None,
     w_inventory_date = None \<rparr>"

definition upd :: "'a option \<Rightarrow> 'a \<Rightarrow> 'a" where
  "upd v old = (case v of None \<Rightarrow> old | Some x \<Rightarrow> x)"

definition apply_write :: "line_write \<Rightarrow> inventory_line \<Rightarrow> inventory_line" where
  "apply_write w l =
     l \<lparr> inventory_id := upd (w_inventory_id w) (inventory_id l),
         partner_id := upd (w_partner_id w) (partner_id l),
         product_id := upd (w_product_id w) (product_id l),
         product_uom_id := upd (w_product_uom_id w) (product_uom_id l),
         product_qty := upd (w_product_qty w) (product_qty l),
         location_id := upd (w_location_id w) (location_id l),
         package_id := upd (w_package_id w) (package_id l),
         prod_lot_id := upd (w_prod_lot_id w) (prod_lot_id l),
         theoretical_qty := upd (w_theoretical_qty w) (theoretical_qty l),
         inventory_date := upd (w_inventory_date w) (inventory_date l) \<rparr>"

text \<open>The required many2one fields of a line: the store refuses a null.\<close>
definition required_set :: "inventory_line \<Rightarrow> bool" where
  "required_set l \<longleftrightarrow> product_id l \<noteq> None \<and> location_id l \<noteq> None \<and> product_uom_id l \<noteq> None"

text \<open>The store once the inherited \<open>write\<close> has stored the values on the lines
  \<open>ids\<close>.\<close>
definition stored_write :: "db \<Rightarrow> rid list \<Rightarrow> line_write \<Rightarrow> db" where
  "stored_write d ids w =
     d \<lparr> lines := map (\<lambda>l. if line_id l \<in> set ids then apply_write w l else l) (lines d) \<rparr>"

text \<open>
  \<open>InventoryLine.write\<close> on the lines with ids \<open>ids\<close>: the inherited write stores the
  values (refusing a null in a required field, and running the \<open>product_id\<close>
  constraint when that key is written), then \<open>_check_no_duplicate_line\<close> runs on the
  written lines.
\<close>
definition write_lines :: "env \<Rightarrow> db \<Rightarrow> rid list \<Rightarrow> line_write \<Rightarrow> bool outcome" where
  "write_lines e d ids w =
     (let d1 = stored_write d ids w;
          self = browse_lines d1 ids
      in if \<not> list_all required_set self then (Inl Required_field_missing, d1)
         else case (if w_product_id w = None then None else check_product_id e self) of
           Some err \<Rightarrow> (Inl err, d1)
         | None \<Rightarrow>
             (case check_no_duplicate_line d1 self of
                Some err \<Rightarrow> (Inl err, d1)
              | None \<Rightarrow> (Inr True, d1)))"

text \<open>\<open>action_reset_product_qty\<close>: the loop collects the lines whose state is not
  \<open>'done'\<close>, then writes \<open>{'product_qty': 0}\<close> on them.\<close>
fun impacted_lines :: "db \<Rightarrow> inventory_line list \<Rightarrow> rid list" where
  "impacted_lines d [] = []"
| "impacted_lines d (line # rest) =
     (if line_state d line = Some Done then impacted_lines d rest
      else line_id line # impacted_lines d rest)"

definition action_reset_product_qty :: "env \<Rightarrow> db \<Rightarrow> rid list \<Rightarrow> unit outcome" where
  "action_reset_product_qty e d ids =
     (case write_lines e d (impacted_lines d (browse_lines d ids)) (no_write \<lparr> w_product_qty := Some 0 \<rparr>) of
        (Inl err, d') \<Rightarrow> (Inl err, d')
      | (Inr _, d') \<Rightarrow> (Inr (), d'))"

section \<open>Float comparison helpers\<close>

text \<open>
  Modelled from the spec: \<open>float_round\<close>, \<open>float_is_zero\<close> and \<open>float_compare\<close> of
  \<open>odoo.tools\<close> are imported by the module and are not part of it. The spec speaks
  of quantities that differ "beyond rounding tolerance"; they are modelled on the reals
  as the helpers are documented: a value is rounded to the nearest multiple of the
  rounding, halves away from zero; it is zero when its rounded magnitude is below the
  rounding; two values compare by the difference of their rounded values.
\<close>
definition float_round :: "real \<Rightarrow> real \<Rightarrow> real" where
  "float_round v r =
     (if r = 0 \<or> v = 0 then 0 else sgn (v / r) * of_int \<lfloor>\<bar>v / r\<bar> + 1 / 2\<rfloor> * r)"

text \<open>Modelled from the spec: \<open>float_is_zero(value, precision_rounding)\<close>, a value
  within the rounding tolerance of zero.\<close>
definition float_is_zero :: "real \<Rightarrow> real \<Rightarrow> bool" where
  "float_is_zero v r \<longleftrightarrow> \<bar>float_round v r\<bar> < r"

text \<open>Modelled from the spec: \<open>float_compare(value1, value2, precision_rounding)\<close>,
  -1, 0 or 1 as the first value is below, equal to or above the second at the rounding.\<close>
definition float_compare :: "real \<Rightarrow> real \<Rightarrow> real \<Rightarrow> int" where
  "float_compare v1 v2 r =
     (let delta = float_round v1 r - float_round v2 r
      in if float_is_zero delta r then 0 else if delta < 0 then - 1 else 1)"

section \<open>Generating the moves of inventory lines\<close>

text \<open>\<open>_compute_difference\<close>.\<close>
definition difference_qty :: "inventory_line \<Rightarrow> real" where
  "difference_qty line = product_qty line - theoretical_qty line"

text \<open>\<open>_get_virtual_location\<close>:
  \<open>self.product_id.with_company(self.company_id).property_stock_inventory\<close>.\<close>
definition get_virtual_location :: "env \<Rightarrow> db \<Rightarrow> inventory_line \<Rightarrow> many2one" where
  "get_virtual_location e d line = property_stock_inventory e (product_id line) (line_company_id d line)"

text \<open>\<open>_get_move_values(qty, location_id, location_dest_id, out)\<close>. The name is
  \<open>'INV:' + (self.inventory_id.name or '')\<close>; \<open>out and self.package_id.id or False\<close>
  is the package when \<open>out\<close> holds and \<open>False\<close> otherwise.\<close>
definition get_move_values ::
  "db \<Rightarrow> inventory_line \<Rightarrow> real \<Rightarrow> many2one \<Rightarrow> many2one \<Rightarrow> bool \<Rightarrow> move_vals" where
  "get_move_values d line qty loc loc_dest out =
     \<lparr> mv_name = ''INV:'' @ (case browse_inventory d (inventory_id line) of
                                 None \<Rightarrow> [] | Some v \<Rightarrow> name v),
       mv_product_id = product_id line,
       mv_product_uom = product_uom_id line,
       mv_product_uom_qty = qty,
       mv_date = map_option date (browse_inventory d (inventory_id line)),
       mv_company_id = line_company_id d line,
       mv_inventory_id = inventory_id line,
       mv_state = Move_confirmed,
       mv_restrict_partner_id = partner_id line,
       mv_location_id = loc,
       mv_location_dest_id = loc_dest,
       mv_move_line_ids = [\<lparr>
         ml_product_id = product_id line,
         ml_lot_id = prod_lot_id line,
         ml_product_uom_qty = 0,
         ml_product_uom_id = product_uom_id line,
         ml_qty_done = qty,
         ml_package_id = (if out then package_id line else None),
         ml_result_package_id = (if \<not> out then package_id line else None),
         ml_location_id = loc,
         ml_location_dest_id = loc_dest,
         ml_owner_id = partner_id line \<rparr>] \<rparr>"

text \<open>The loop of \<open>_generate_moves\<close> that fills \<open>vals_list\<close>. The rounding is
  \<open>line.product_id.uom_id.rounding\<close>.\<close>
fun generate_moves_vals :: "env \<Rightarrow> db \<Rightarrow> inventory_line list \<Rightarrow> move_vals list" where
  "generate_moves_vals e d [] = []"
| "generate_moves_vals e d (line # rest) =
     (let virtual_location = get_virtual_location e d line;
          rnd = rounding e (uom_id e (product_id line))
      in if float_is_zero (difference_qty line) rnd then generate_moves_vals e d rest
         else (if difference_qty line > 0
               then get_move_values d line (difference_qty line) virtual_location (location_id line) False
               else get_move_values d line \<bar>difference_qty line\<bar> (location_id line) virtual_location True)
              # generate_moves_vals e d rest)"

text \<open>Modelled from the spec: \<open>stock.move\<close> is defined outside the module
  (the spec's \<open>createMove\<close>). Creating moves stores one record per dictionary, in
  order, with fresh ids.\<close>
definition move_create :: "db \<Rightarrow> move_vals list \<Rightarrow> stock_move list \<times> db" where
  "move_create d vals_list =
     (let n = next_move_id d;
          ms = map (\<lambda>(i, v). \<lparr> move_id = i, move_values = v \<rparr>)
                   (zip [n ..< n + length vals_list] vals_list)
      in (ms, d \<lparr> moves := moves d @ ms, next_move_id := n + length vals_list \<rparr>))"

definition generate_moves :: "env \<Rightarrow> db \<Rightarrow> inventory_line list \<Rightarrow> stock_move list \<times> db" where
  "generate_moves e d ls = move_create d (generate_moves_vals e d ls)"

section \<open>Creating inventory lines\<close>

text \<open>A dictionary of \<open>vals_list\<close>. A many2one key that is absent reads as \<open>None\<close>
  (\<open>values.get\<close>); the keys whose presence \<open>create\<close> tests are options.\<close>
record line_vals =
  v_inventory_id :: many2one
  v_product_id :: many2one
  v_location_id :: many2one
  v_prod_lot_id :: many2one
  v_package_id :: many2one
  v_partner_id :: many2one
  v_product_uom_id :: "many2one option"
  v_product_qty :: "real option"
  v_theoretical_qty :: "real option"

text \<open>The first loop of \<open>create\<close>: \<open>theoretical_qty\<close> and \<open>product_uom_id\<close> are
  filled when absent; \<open>to_uom\<close> is read before the unit is filled.\<close>
definition complete_values :: "env \<Rightarrow> line_vals \<Rightarrow> line_vals" where
  "complete_values e v =
     (let v1 = (if v_theoretical_qty v = None
                then v \<lparr> v_theoretical_qty := Some (get_theoretical_quantity e
                       (v_product_id v) (v_location_id v) (v_prod_lot_id v) (v_package_id v)
                       (v_partner_id v) (case v_product_uom_id v of None \<Rightarrow> None | Some u \<Rightarrow> u)) \<rparr>
                else v)
      in if v_product_uom_id v1 = None
         then v1 \<lparr> v_product_uom_id := Some (uom_id e (v_product_id v1)) \<rparr>
         else v1)"

text \<open>The record the inherited \<open>create\<close> stores for completed values: \<open>product_qty\<close>
  defaults to 0 and \<open>inventory_date\<close> to now.\<close>
definition new_line :: "env \<Rightarrow> rid \<Rightarrow> line_vals \<Rightarrow> inventory_line" where
  "new_line e i v =
     \<lparr> line_id = i,
       inventory_id = v_inventory_id v,
       partner_id = v_partner_id v,
       product_id = v_product_id v,
       product_uom_id = (case v_product_uom_id v of None \<Rightarrow> None | Some u \<Rightarrow> u),
       product_qty = (case v_product_qty v of None \<Rightarrow> 0 | Some q \<Rightarrow> q),
       location_id = v_location_id v,
       package_id = v_package_id v,
       prod_lot_id = v_prod_lot_id v,
       theoretical_qty = (case v_theoretical_qty v of None \<Rightarrow> 0 | Some q \<Rightarrow> q),
       inventory_date = now e \<rparr>"

text \<open>The lines stored for \<open>vals_list\<close>, with the next free ids in order.\<close>
definition new_lines :: "env \<Rightarrow> db \<Rightarrow> line_vals list \<Rightarrow> inventory_line list" where
  "new_lines e d vals_list =
     (let n = next_line_id d
      in map (\<lambda>(i, v). new_line e i (complete_values e v))
             (zip [n ..< n + length vals_list] vals_list))"

text \<open>
  \<open>InventoryLine.create(vals_list)\<close>: the values are completed, the inherited create
  stores one line per dictionary with fresh ids (refusing a null in a required field
  and running the \<open>product_id\<close> constraint), then \<open>_check_no_duplicate_line\<close> runs on
  the new lines. A dictionary without \<open>product_id\<close> or \<open>location_id\<close> reads as a
  null there and is refused.
\<close>
definition create :: "env \<Rightarrow> db \<Rightarrow> line_vals list \<Rightarrow> inventory_line list outcome" where
  "create e d vals_list =
     (let res = new_lines e d vals_list
      in if \<not> list_all required_set res then (Inl Required_field_missing, d)
         else
           (let d1 = d \<lparr> lines := lines d @ res,
                         next_line_id := next_line_id d + length vals_list \<rparr>
            in case check_product_id e res of
                 Some err \<Rightarrow> (Inl err, d1)
               | None \<Rightarrow>
                   (case check_no_duplicate_line d1 res of
                      Some err \<Rightarrow> (Inl err, d1)
                    | None \<Rightarrow> (Inr res, d1))))"

section \<open>The quantity snapshot\<close>

text \<open>The ancestors named by a location's path: \<open>parent_path\<close> is the slash-delimited
  chain of ids from the root to the location itself, with a trailing slash, kept here
  as the list of its ids. \<open>parent_path.split('/')[:-2]\<close> drops the empty string after
  the last slash and the location's own id.\<close>
definition path_ancestors :: "location \<Rightarrow> rid list" where
  "path_ancestors l = take (length (parent_path l) - 1) (parent_path l)"

text \<open>The domain \<open>('id', 'child_of', ids)\<close> on locations: the locations whose path
  passes through one of \<open>ids\<close>, themselves included.\<close>
definition child_of :: "rid list \<Rightarrow> location \<Rightarrow> bool" where
  "child_of ids l \<longleftrightarrow> list_ex (\<lambda>i. i \<in> set (parent_path l)) ids"

definition m2o_in :: "many2one \<Rightarrow> rid list \<Rightarrow> bool" where
  "m2o_in m ids = (case m of None \<Rightarrow> False | Some i \<Rightarrow> i \<in> set ids)"

text \<open>\<open>domain_loc\<close> of \<open>_get_quantities\<close>; a search leaves archived locations out.\<close>
definition domain_loc :: "inventory \<Rightarrow> location \<Rightarrow> bool" where
  "domain_loc inventory l \<longleftrightarrow>
     loc_active l \<and>
     (if location_ids inventory \<noteq> [] then child_of (location_ids inventory) l
      else loc_company_id l = company_id inventory \<and> usage l \<in> {Internal, Transit})"

text \<open>The domain on \<open>stock.quant\<close> built by \<open>_get_quantities\<close>.\<close>
definition quant_domain :: "env \<Rightarrow> db \<Rightarrow> inventory \<Rightarrow> quant \<Rightarrow> bool" where
  "quant_domain e d inventory q \<longleftrightarrow>
     (let locations_ids = map loc_id (filter (domain_loc inventory) (locations d))
      in q_company_id q = company_id inventory \<and>
         m2o_in (q_location_id q) locations_ids \<and>
         (prefill_counted_quantity inventory = Zero \<longrightarrow> product_active e (q_product_id q)) \<and>
         (lot_ids inventory \<noteq> [] \<longrightarrow> m2o_in (q_lot_id q) (lot_ids inventory)) \<and>
         (if is_conflict_inventory inventory \<and> lot_ids inventory = [] then quantity q < 0
          else quantity q \<noteq> 0) \<and>
         (product_ids inventory \<noteq> [] \<longrightarrow> m2o_in (q_product_id q) (product_ids inventory)))"

type_synonym dimension_key = "many2one \<times> many2one \<times> many2one \<times> many2one \<times> many2one"

text \<open>The group-by key: product, location, lot, package, owner.\<close>
definition quant_key :: "quant \<Rightarrow> dimension_key" where
  "quant_key q = (q_product_id q, q_location_id q, q_lot_id q, q_package_id q, q_owner_id q)"

text \<open>\<open>read_group(domain, fields, group_by, lazy=False)\<close> with \<open>quantity:sum\<close>: one row
  per distinct key, holding the sum of the quantities of the group. The rows are kept
  in the order in which the keys first occur.\<close>
fun add_to_group :: "'k \<Rightarrow> real \<Rightarrow> ('k \<times> real) list \<Rightarrow> ('k \<times> real) list" where
  "add_to_group k v [] = [(k, v)]"
| "add_to_group k v ((k', s) # rest) =
     (if k' = k then (k', s + v) # rest else (k', s) # add_to_group k v rest)"

definition read_group :: "quant list \<Rightarrow> (dimension_key \<times> real) list" where
  "read_group qs = foldl (\<lambda>acc q. add_to_group (quant_key q) (quantity q) acc) [] qs"

text \<open>\<open>_get_quantities\<close>: the dictionary from key to summed quantity, as the list of its
  items.\<close>
definition get_quantities :: "env \<Rightarrow> db \<Rightarrow> inventory \<Rightarrow> (dimension_key \<times> real) list" where
  "get_quantities e d inventory = read_group (filter (quant_domain e d inventory) (quants d))"

section \<open>The values of the lines of an inventory\<close>

definition exhausted_vals :: "rid \<Rightarrow> rid \<Rightarrow> rid \<Rightarrow> line_vals" where
  "exhausted_vals i p l =
     \<lparr> v_inventory_id = Some i, v_product_id = Some p, v_location_id = Some l,
       v_prod_lot_id = None, v_package_id = None, v_partner_id = None,
       v_product_uom_id = None, v_product_qty = None, v_theoretical_qty = Some 0 \<rparr>"

text \<open>\<open>_get_exhausted_inventory_lines_vals(non_exhausted_set)\<close>.\<close>
definition get_exhausted_inventory_lines_vals ::
  "env \<Rightarrow> inventory \<Rightarrow> (many2one \<times> many2one) list \<Rightarrow> line_vals list" where
  "get_exhausted_inventory_lines_vals e inventory non_exhausted_set =
     (let prods = (if product_ids inventory \<noteq> [] then product_ids inventory
                   else storable_product_ids e (company_id inventory));
          locs = (if location_ids inventory \<noteq> [] then location_ids inventory
                  else warehouse_lot_stock_ids e (company_id inventory))
      in concat (map (\<lambda>p. concat (map (\<lambda>l.
           if (Some p, Some l) \<notin> set non_exhausted_set
           then [exhausted_vals (inv_id inventory) p l] else []) locs)) prods))"

definition snapshot_vals :: "env \<Rightarrow> inventory \<Rightarrow> dimension_key \<times> real \<Rightarrow> line_vals" where
  "snapshot_vals e inventory kq =
     (case kq of ((product, loc, lot, package, owner), qty) \<Rightarrow>
        \<lparr> v_inventory_id = Some (inv_id inventory), v_product_id = product, v_location_id = loc,
          v_prod_lot_id = lot, v_package_id = package, v_partner_id = owner,
          v_product_uom_id = Some (uom_id e product),
          v_product_qty = Some (if prefill_counted_quantity inventory = Zero then 0 else qty),
          v_theoretical_qty = Some qty \<rparr>)"

text \<open>\<open>_get_inventory_lines_values\<close>.\<close>
definition get_inventory_lines_values :: "env \<Rightarrow> db \<Rightarrow> inventory \<Rightarrow> line_vals list" where
  "get_inventory_lines_values e d inventory =
     (let quants_groups = get_quantities e d inventory;
          vals = map (snapshot_vals e inventory) quants_groups
      in if exhausted inventory
         then vals @ get_exhausted_inventory_lines_vals e inventory
                       (map (\<lambda>l. (v_product_id l, v_location_id l)) vals)
         else vals)"

section \<open>The lifecycle of an inventory\<close>

text \<open>\<open>inventory.line_ids\<close> and \<open>inventory.move_ids\<close>, in the store's order.\<close>
definition line_ids :: "db \<Rightarrow> rid \<Rightarrow> inventory_line list" where
  "line_ids d i = filter (\<lambda>l. inventory_id l = Some i) (lines d)"

definition move_ids :: "db \<Rightarrow> rid \<Rightarrow> stock_move list" where
  "move_ids d i = filter (\<lambda>m. mv_inventory_id (move_values m) = Some i) (moves d)"

definition update_inventory :: "db \<Rightarrow> rid \<Rightarrow> (inventory \<Rightarrow> inventory) \<Rightarrow> db" where
  "update_inventory d i f =
     d \<lparr> inventories := map (\<lambda>v. if inv_id v = i then f v else v) (inventories d) \<rparr>"

text \<open>
  \<open>_action_start\<close>, on the inventories with ids \<open>ids\<close>: an inventory that is not a
  draft is skipped; a draft gets its lines created (when it has none and is not to
  start empty), then \<open>{'state': 'confirm', 'date': now}\<close> is written. The public
  \<open>action_start\<close> calls it on one inventory and returns the action that opens the
  lines.
\<close>
fun action_start :: "env \<Rightarrow> db \<Rightarrow> rid list \<Rightarrow> unit outcome" where
  "action_start e d [] = (Inr (), d)"
| "action_start e d (i # rest) =
     (case browse_inventory d (Some i) of
        None \<Rightarrow> action_start e d rest
      | Some inventory \<Rightarrow>
          if state inventory \<noteq> Draft then action_start e d rest
          else
            (case (if line_ids d i = [] \<and> \<not> start_empty inventory
                   then create e d (get_inventory_lines_values e d inventory)
                   else (Inr [], d)) of
               (Inl err, d1) \<Rightarrow> (Inl err, d1)
             | (Inr _, d1) \<Rightarrow>
                 action_start e
                   (update_inventory d1 i (\<lambda>v. v \<lparr> state := Confirm, date := now e \<rparr>)) rest))"

text \<open>Modelled from the spec: unlinking \<open>stock.move\<close> records is done by that model,
  outside the module; the spec has the previously generated moves of the inventory
  cleared. The moves of the inventory leave the store.\<close>
definition unlink_moves :: "db \<Rightarrow> rid \<Rightarrow> db" where
  "unlink_moves d i = d \<lparr> moves := filter (\<lambda>m. mv_inventory_id (move_values m) \<noteq> Some i) (moves d) \<rparr>"

text \<open>\<open>action_check\<close>: the inventories of \<open>self\<close> whose state is neither \<open>'done'\<close> nor
  \<open>'cancel'\<close> have their moves removed and generated again from their lines.\<close>
fun action_check_loop :: "env \<Rightarrow> db \<Rightarrow> inventory list \<Rightarrow> db" where
  "action_check_loop e d [] = d"
| "action_check_loop e d (inventory # rest) =
     (let d1 = unlink_moves d (inv_id inventory);
          d2 = snd (generate_moves e d1 (line_ids d1 (inv_id inventory)))
      in action_check_loop e d2 rest)"

definition browse_inventories :: "db \<Rightarrow> rid list \<Rightarrow> inventory list" where
  "browse_inventories d ids = concat (map (\<lambda>i. filter (\<lambda>v. inv_id v = i) (inventories d)) ids)"

definition action_check :: "env \<Rightarrow> db \<Rightarrow> rid list \<Rightarrow> db" where
  "action_check e d ids =
     action_check_loop e d (filter (\<lambda>x. state x \<notin> {Done, Cancel}) (browse_inventories d ids))"





section \<open>The recompute on a change of dimension\<close>

text \<open>A field read through an empty product is \<open>False\<close>, which equals no tracking
  value.\<close>
definition tracking_is :: "env \<Rightarrow> many2one \<Rightarrow> tracking_kind \<Rightarrow> bool" where
  "tracking_is e p k \<longleftrightarrow> p \<noteq> None \<and> tracking e p = k"

text \<open>\<open>_onchange_quantity_context\<close>, on the line being edited; the result is the line
  after the onchange.\<close>
definition onchange_quantity_context :: "env \<Rightarrow> inventory_line \<Rightarrow> inventory_line" where
  "onchange_quantity_context e self =
     (let s1 = (if product_id self \<noteq> None
                then self \<lparr> product_uom_id := uom_id e (product_id self) \<rparr> else self);
          theoretical = (if product_id s1 \<noteq> None \<and> location_id s1 \<noteq> None
                            \<and> category_id e (uom_id e (product_id s1)) = category_id e (product_uom_id s1)
                         then get_theoretical_quantity e (product_id s1) (location_id s1)
                                (prod_lot_id s1) (package_id s1) (partner_id s1) (product_uom_id s1)
                         else 0);
          s2 = (if prod_lot_id s1 \<noteq> None
                   \<and> (tracking_is e (product_id s1) Track_none
                        \<or> product_id s1 \<noteq> lot_product_id e (prod_lot_id s1))
                then s1 \<lparr> prod_lot_id := None \<rparr> else s1);
          s3 = (if prod_lot_id s2 \<noteq> None \<and> tracking_is e (product_id s2) Track_serial
                then s2 \<lparr> product_qty := 1 \<rparr>
                else if product_id s2 \<noteq> None
                        \<and> float_compare (product_qty s2) (theoretical_qty s2)
                              (rounding e (product_uom_id s2)) = 0
                then s2 \<lparr> product_qty := theoretical \<rparr>
                else s2)
      in s3 \<lparr> theoretical_qty := theoretical \<rparr>)"

section \<open>The cyclic inventories of the scheduler\<close>

text \<open>
  The selection of the locations of the cyclic inventories in \<open>_run_inventory_tasks\<close>:
  the search for the locations that are due, the filter on their ancestors, the loop
  over the existing location inventories and the locations that are left, for each of
  which the method then creates an inventory.
\<close>

text \<open>\<open>company_domain\<close> of \<open>_run_inventory_tasks\<close>: every company when the task is run
  by the scheduler, the given one otherwise.\<close>
definition company_domain :: "many2one \<Rightarrow> many2one \<Rightarrow> bool" where
  "company_domain company c = (case company of None \<Rightarrow> c \<noteq> None | Some k \<Rightarrow> c = Some k)"

text \<open>The locations found by the search: \<open>next_inventory_date <= today\<close> within the
  company domain.\<close>
definition due_locations :: "env \<Rightarrow> db \<Rightarrow> many2one \<Rightarrow> location list" where
  "due_locations e d company =
     filter (\<lambda>l. loc_active l
                \<and> (case next_inventory_date l of None \<Rightarrow> False | Some t \<Rightarrow> t \<le> today e)
                \<and> company_domain company (loc_company_id l)) (locations d)"

text \<open>\<open>locations.filtered(lambda l: not any(int(location_id) in locations.ids for
  location_id in l.parent_path.split('/')[:-2]))\<close>: the lambda runs before the
  assignment, so \<open>locations.ids\<close> are the ids of the locations found by the search.\<close>
definition cyclic_locations :: "env \<Rightarrow> db \<Rightarrow> many2one \<Rightarrow> location list" where
  "cyclic_locations e d company =
     (let locs = due_locations e d company
      in filter (\<lambda>l. \<not> list_ex (\<lambda>location_id. location_id \<in> set (map loc_id locs))
                               (path_ancestors l)) locs)"

definition browse_location :: "db \<Rightarrow> rid \<Rightarrow> location option" where
  "browse_location d i = find (\<lambda>l. loc_id l = i) (locations d)"

text \<open>The loop over \<open>existing_loc_invs\<close>: the result is \<open>invs_to_unlink\<close> and
  \<open>existing_cyclic_inv\<close>.\<close>
fun sort_existing :: "env \<Rightarrow> db \<Rightarrow> location list \<Rightarrow> inventory list \<Rightarrow> inventory list \<times> inventory list" where
  "sort_existing e d locs [] = ([], [])"
| "sort_existing e d locs (inventory # rest) =
     (let (invs_to_unlink, existing_cyclic_inv) = sort_existing e d locs rest
      in if length (location_ids inventory) = 1
         then (let loc0 = hd (location_ids inventory);
                   ancestors = (case browse_location d loc0 of None \<Rightarrow> []
                                | Some l \<Rightarrow> path_ancestors l)
               in if state inventory = Draft
                     \<and> (list_ex (\<lambda>location_id. location_id \<in> set (map loc_id locs)) ancestors
                          \<or> (loc0 \<in> set (map loc_id locs) \<and> create_date inventory < today_start e))
                  then (inventory # invs_to_unlink, existing_cyclic_inv)
                  else if loc0 \<in> set (map loc_id locs)
                  then (invs_to_unlink, inventory # existing_cyclic_inv)
                  else (invs_to_unlink, existing_cyclic_inv))
         else (invs_to_unlink, existing_cyclic_inv))"

definition existing_loc_invs :: "db \<Rightarrow> inventory list" where
  "existing_loc_invs d =
     filter (\<lambda>v. state v \<in> {Draft, Confirm} \<and> product_ids v = [] \<and> location_ids v \<noteq> [])
            (inventories d)"

text \<open>The locations left after \<open>locations -= existing_cyclic_inv.mapped('location_ids')\<close>:
  those an inventory is created for.\<close>
definition locations_to_create :: "env \<Rightarrow> db \<Rightarrow> many2one \<Rightarrow> location list" where
  "locations_to_create e d company =
     (let locs = cyclic_locations e d company;
          existing_cyclic_inv = snd (sort_existing e d locs (existing_loc_invs d))
      in filter (\<lambda>l. loc_id l \<notin> set (concat (map location_ids existing_cyclic_inv))) locs)"

section \<open>Invariants of the store and example data\<close>

text \<open>The dimension key of a line: product, location, lot, package, owner.\<close>
definition dimension_key :: "inventory_line \<Rightarrow> dimension_key" where
  "dimension_key l = (product_id l, location_id l, prod_lot_id l, package_id l, partner_id l)"

text \<open>No two lines of one inventory share a dimension key.\<close>
definition keys_distinct :: "db \<Rightarrow> bool" where
  "keys_distinct d \<longleftrightarrow> distinct (map (\<lambda>l. (inventory_id l, dimension_key l)) (lines d))"

text \<open>The ids of the stored lines are unique.\<close>
definition ids_distinct :: "db \<Rightarrow> bool" where
  "ids_distinct d \<longleftrightarrow> distinct (map line_id (lines d))"


text \<open>A well-formed store of lines: unique ids below the next id to be given, and no
  duplicate dimension key within an inventory.\<close>
definition store_ok :: "db \<Rightarrow> bool" where
  "store_ok d \<longleftrightarrow> ids_distinct d \<and> keys_distinct d \<and> list_all (\<lambda>l. line_id l < next_line_id d) (lines d)"

text \<open>A small store: a confirmed, a validated and a draft inventory, with lines,
  locations and quants.\<close>
definition ex_env :: env where
  "ex_env = \<lparr> uom_id = (\<lambda>p. if p = None then None else Some 1),
     rounding = (\<lambda>u. 1 / 100),
     category_id = (\<lambda>u. if u = None then None else Some 1),
     tracking = (\<lambda>p. if p = Some 2 then Track_serial else Track_none),
     product_active = (\<lambda>p. True),
     product_type_is_product = (\<lambda>p. p \<noteq> None),
     lot_product_id = (\<lambda>l. if l = None then None else Some 2),
     property_stock_inventory = (\<lambda>p c. Some 99),
     get_theoretical_quantity = (\<lambda>p l lot pk ow u. 0),
     storable_product_ids = (\<lambda>c. [1, 2]),
     warehouse_lot_stock_ids = (\<lambda>c. [10]),
     group_stock_manager = True,
     group_stock_multi_locations = True,
     now = 1000, today = 10, today_start = 900 \<rparr>"

definition ex_inventory :: "rid \<Rightarrow> inv_state \<Rightarrow> rid list \<Rightarrow> inventory" where
  "ex_inventory i st locs =
     \<lparr> inv_id = i, name = ''Count'', date = 500, state = st, company_id = Some 1,
       location_ids = locs, product_ids = [], start_empty = False,
       prefill_counted_quantity = Counted, exhausted = False,
       is_conflict_inventory = False, lot_ids = [], create_date = 400 \<rparr>"

definition ex_line :: "rid \<Rightarrow> rid \<Rightarrow> rid \<Rightarrow> rid \<Rightarrow> many2one \<Rightarrow> many2one \<Rightarrow> real \<Rightarrow> real \<Rightarrow> inventory_line" where
  "ex_line i v p l lot pack counted theoretical =
     \<lparr> line_id = i, inventory_id = Some v, partner_id = None, product_id = Some p,
       product_uom_id = Some 1, product_qty = counted, location_id = Some l,
       package_id = pack, prod_lot_id = lot, theoretical_qty = theoretical,
       inventory_date = 500 \<rparr>"

definition ex_location :: "rid \<Rightarrow> rid list \<Rightarrow> nat option \<Rightarrow> location" where
  "ex_location i path due =
     \<lparr> loc_id = i, loc_name = ''Shelf'', loc_company_id = Some 1, usage = Internal,
       loc_active = True, parent_path = path, next_inventory_date = due,
       last_inventory_date = None \<rparr>"

definition ex_quant :: "rid \<Rightarrow> rid \<Rightarrow> many2one \<Rightarrow> real \<Rightarrow> quant" where
  "ex_quant p l lot q =
     \<lparr> q_company_id = Some 1, q_location_id = Some l, q_product_id = Some p,
       q_lot_id = lot, q_package_id = None, q_owner_id = None, quantity = q \<rparr>"

definition ex_db :: db where
  "ex_db = \<lparr> inventories = [ex_inventory 1 Confirm [10], ex_inventory 2 Done [11],
                             ex_inventory 3 Draft [12]],
     lines = [ex_line 1 1 1 10 None (Some 5) 7 10,
              ex_line 2 1 2 10 (Some 7) (Some 6) 1 0,
              ex_line 3 2 1 11 None None 4 6,
              ex_line 4 1 1 11 None None 5 5],
     moves = [],
     locations = [ex_location 1 [1] None, ex_location 10 [1, 10] (Some 9),
                  ex_location 11 [1, 10, 11] (Some 10), ex_location 12 [1, 12] None],
     quants = [ex_quant 1 10 None 10, ex_quant 1 12 None 3, ex_quant 2 12 (Some 7) 1,
               ex_quant 1 12 None 4],
     next_line_id = 5, next_move_id = 1, next_inventory_id = 4 \<rparr>"



definition ex_vals :: "rid \<Rightarrow> many2one \<Rightarrow> line_vals" where
  "ex_vals l pack =
     \<lparr> v_inventory_id = Some 1, v_product_id = Some 1, v_location_id = Some l,
       v_prod_lot_id = None, v_package_id = pack, v_partner_id = None,
       v_product_uom_id = None, v_product_qty = None, v_theoretical_qty = None \<rparr>"

definition ex_write :: line_write where
  "ex_write = no_write \<lparr> w_location_id := Some (Some 10), w_package_id := Some (Some 5) \<rparr>"

definition ex_started_line :: "rid \<Rightarrow> rid \<Rightarrow> many2one \<Rightarrow> real \<Rightarrow> inventory_line" where
  "ex_started_line i p lot q =
     \<lparr> line_id = i, inventory_id = Some 3, partner_id = None, product_id = Some p,
       product_uom_id = Some 1, product_qty = q, location_id = Some 12,
       package_id = None, prod_lot_id = lot, theoretical_qty = q, inventory_date = 1000 \<rparr>"

definition ex_db_started :: db where
  "ex_db_started =
     ex_db \<lparr> inventories := [ex_inventory 1 Confirm [10], ex_inventory 2 Done [11],
                              (ex_inventory 3 Confirm [12]) \<lparr> date := 1000 \<rparr>],
             lines := lines ex_db @ [ex_started_line 5 1 None 7, ex_started_line 6 2 (Some 7) 1],
             next_line_id := 7 \<rparr>"

definition ex_db_cancelling :: db where
  "ex_db_cancelling = ex_db \<lparr> quants := [ex_quant 1 10 None 5, ex_quant 1 10 None (- 5)] \<rparr>"

definition ex_db_conflict :: db where
  "ex_db_conflict = ex_db \<lparr> quants := [ex_quant 1 12 None (- 2), ex_quant 1 12 None 4,
                                         ex_quant 2 12 (Some 7) 1, ex_quant 1 12 None (- 3)] \<rparr>"

definition ex_conflict_inventory :: inventory where
  "ex_conflict_inventory = (ex_inventory 4 Draft [12])
     \<lparr> product_ids := [1], prefill_counted_quantity := Zero, is_conflict_inventory := True \<rparr>"

definition ex_lot_inventory :: inventory where
  "ex_lot_inventory = (ex_inventory 3 Draft [12]) \<lparr> lot_ids := [7] \<rparr>"

definition ex_env_onchange :: env where
  "ex_env_onchange = ex_env \<lparr> get_theoretical_quantity := (\<lambda>p l lot pk ow u. 9) \<rparr>"

definition ex_db_cyclic :: db where
  "ex_db_cyclic = ex_db \<lparr> inventories := [ex_inventory 2 Done [11], ex_inventory 3 Draft [11]],
                            lines := [ex_line 3 2 1 11 None None 4 6, ex_line 7 3 1 11 None None 2 2] \<rparr>"

section \<open>Properties of the store operations\<close>

lemma check_no_duplicate_line_None:
  "check_no_duplicate_line d ls = None \<longleftrightarrow>
     (\<forall>l \<in> set ls. \<forall>x \<in> set (lines d). \<not> duplicate_domain l x)"
  by (induction ls) (auto simp: Let_def filter_empty_conv)

lemma keys_distinct_no_duplicate:
  assumes "keys_distinct d" "l \<in> set (lines d)" "x \<in> set (lines d)"
  shows "\<not> duplicate_domain l x"
proof
  assume dup: "duplicate_domain l x"
  then have ne: "x \<noteq> l" by (auto simp: duplicate_domain_def)
  from dup have "(inventory_id x, dimension_key x) = (inventory_id l, dimension_key l)"
    by (simp add: duplicate_domain_def dimension_key_def)
  with assms have "x = l"
    unfolding keys_distinct_def by (meson distinct_map inj_onD)
  with ne show False by simp
qed

lemma set_browse_lines: "set (browse_lines d ids) = {l \<in> set (lines d). line_id l \<in> set ids}"
  by (auto simp: browse_lines_def)

lemma set_impacted_lines:
  "set (impacted_lines d ls) = line_id ` {l \<in> set ls. line_state d l \<noteq> Some Done}"
  by (induction ls) auto

lemma apply_write_qty: "apply_write (no_write \<lparr> w_product_qty := Some q \<rparr>) l = l \<lparr> product_qty := q \<rparr>"
  by (simp add: apply_write_def no_write_def upd_def)


lemma impacted_member:
  assumes "ids_distinct d" "l \<in> set (lines d)"
  shows "line_id l \<in> set (impacted_lines d (browse_lines d ids)) \<longleftrightarrow>
         line_id l \<in> set ids \<and> line_state d l \<noteq> Some Done"
proof
  assume "line_id l \<in> set (impacted_lines d (browse_lines d ids))"
  then obtain x where x: "x \<in> set (lines d)" "line_id x \<in> set ids"
      "line_state d x \<noteq> Some Done" "line_id l = line_id x"
    unfolding set_impacted_lines set_browse_lines by blast
  have inj: "inj_on line_id (set (lines d))"
    using assms(1) unfolding ids_distinct_def by (simp add: distinct_map)
  have "l = x" by (rule inj_onD [OF inj x(4) assms(2) x(1)])
  with x(2,3) show "line_id l \<in> set ids \<and> line_state d l \<noteq> Some Done" by simp
next
  assume "line_id l \<in> set ids \<and> line_state d l \<noteq> Some Done"
  then show "line_id l \<in> set (impacted_lines d (browse_lines d ids))"
    unfolding set_impacted_lines set_browse_lines using assms(2) by blast
qed

lemma ex_db_ids_distinct: "ids_distinct ex_db"
  by (simp add: ids_distinct_def ex_db_def ex_line_def)

lemma ex_db_keys_distinct: "keys_distinct ex_db"
  by (simp add: keys_distinct_def dimension_key_def ex_db_def ex_line_def)

lemma ex_db_required: "list_all required_set (lines ex_db)"
  by (simp add: required_set_def ex_db_def ex_line_def)

lemma move_create_values: "map move_values (fst (move_create d vs)) = vs"
proof -
  have "map move_values (map (\<lambda>(i, v). \<lparr> move_id = i, move_values = v \<rparr>) (zip [n ..< n + length vs] vs))
        = map snd (zip [n ..< n + length vs] vs)" for n :: nat
    by (simp add: case_prod_unfold comp_def)
  then show ?thesis
    by (simp add: move_create_def Let_def)
qed

lemma generate_moves_values:
  "map move_values (fst (generate_moves e d ls)) = generate_moves_vals e d ls"
  by (simp add: generate_moves_def move_create_values)

lemma generate_moves_vals_concat:
  "generate_moves_vals e d ls = concat (map (\<lambda>l. generate_moves_vals e d [l]) ls)"
  by (induction ls) (simp_all add: Let_def)

lemma float_is_zero_0: "0 < r \<Longrightarrow> float_is_zero 0 r"
  by (simp add: float_is_zero_def float_round_def)

lemma float_is_zero_numeral_examples:
  "\<not> float_is_zero (7 - 10) (1 / 100)" "\<not> float_is_zero (1 - 0) (1 / 100)"
  "float_is_zero (5 - 5) (1 / 100)"
  by (simp_all add: float_is_zero_def float_round_def)



lemma duplicate_domain_sym: "duplicate_domain x y \<Longrightarrow> duplicate_domain y x"
  by (simp add: duplicate_domain_def)

lemma duplicate_domain_key:
  "duplicate_domain x y \<longleftrightarrow>
     line_id y \<noteq> line_id x \<and> (inventory_id y, dimension_key y) = (inventory_id x, dimension_key x)"
  by (auto simp: duplicate_domain_def dimension_key_def)

lemma keys_distinct_iff:
  assumes "ids_distinct d"
  shows "keys_distinct d \<longleftrightarrow> (\<forall>x\<in>set (lines d). \<forall>y\<in>set (lines d). \<not> duplicate_domain x y)"
proof
  assume "keys_distinct d"
  then show "\<forall>x\<in>set (lines d). \<forall>y\<in>set (lines d). \<not> duplicate_domain x y"
    using keys_distinct_no_duplicate by blast
next
  assume nd: "\<forall>x\<in>set (lines d). \<forall>y\<in>set (lines d). \<not> duplicate_domain x y"
  have inj: "inj_on line_id (set (lines d))" and dist: "distinct (lines d)"
    using assms unfolding ids_distinct_def by (simp_all add: distinct_map)
  have "inj_on (\<lambda>l. (inventory_id l, dimension_key l)) (set (lines d))"
  proof (rule inj_onI)
    fix x y
    assume x: "x \<in> set (lines d)" and y: "y \<in> set (lines d)"
      and k: "(inventory_id x, dimension_key x) = (inventory_id y, dimension_key y)"
    have "\<not> duplicate_domain y x" using nd x y by blast
    with k have "line_id x = line_id y" unfolding duplicate_domain_key by simp
    then show "x = y" by (rule inj_onD [OF inj _ x y])
  qed
  with dist show "keys_distinct d"
    unfolding keys_distinct_def by (simp add: distinct_map)
qed

lemma line_id_new_lines:
  "map line_id (new_lines e d vals) = [next_line_id d ..< next_line_id d + length vals]"
proof -
  have "map line_id (map (\<lambda>(i, v). new_line e i (complete_values e v)) (zip [n ..< n + length vals] vals))
        = map fst (zip [n ..< n + length vals] vals)" for n :: nat
    by (simp add: case_prod_unfold comp_def new_line_def)
  then show ?thesis by (simp add: new_lines_def Let_def)
qed

lemma create_Inr:
  assumes "create e d vals = (Inr res, d')"
  shows "res = new_lines e d vals"
    and "d' = d \<lparr> lines := lines d @ res, next_line_id := next_line_id d + length vals \<rparr>"
    and "check_no_duplicate_line d' res = None"
  using assms by (auto simp: create_def Let_def split: if_splits option.splits)

lemma create_preserves_store_ok:
  assumes ok: "store_ok d" and c: "create e d vals = (Inr res, d')"
  shows "store_ok d'"
proof -
  note r = create_Inr [OF c]
  have ls: "lines d' = lines d @ res" and nx: "next_line_id d' = next_line_id d + length vals"
    by (simp_all add: r(2))
  have ids: "map line_id res = [next_line_id d ..< next_line_id d + length vals]"
    using line_id_new_lines r(1) by simp
  have old: "\<forall>l\<in>set (lines d). line_id l < next_line_id d"
    using ok by (simp add: store_ok_def list_all_iff)
  have idd: "ids_distinct d'"
    using ok old unfolding ids_distinct_def store_ok_def ls by (auto simp: ids)
  have below: "list_all (\<lambda>l. line_id l < next_line_id d') (lines d')"
  proof -
    have "\<forall>l\<in>set res. line_id l \<in> set [next_line_id d ..< next_line_id d + length vals]"
      using ids by (metis image_eqI list.set_map)
    then show ?thesis using old unfolding list_all_iff ls nx by fastforce
  qed
  have chk: "\<forall>l\<in>set res. \<forall>x\<in>set (lines d'). \<not> duplicate_domain l x"
    using r(3) by (simp add: check_no_duplicate_line_None)
  have oldk: "\<forall>x\<in>set (lines d). \<forall>y\<in>set (lines d). \<not> duplicate_domain x y"
    using ok keys_distinct_no_duplicate unfolding store_ok_def by blast
  have "\<forall>x\<in>set (lines d'). \<forall>y\<in>set (lines d'). \<not> duplicate_domain x y"
  proof (intro ballI)
    fix x y assume x: "x \<in> set (lines d')" and y: "y \<in> set (lines d')"
    show "\<not> duplicate_domain x y"
    proof (cases "x \<in> set res \<or> y \<in> set res")
      case True
      then show ?thesis using chk x y duplicate_domain_sym by blast
    next
      case False
      then have "x \<in> set (lines d)" "y \<in> set (lines d)" using x y ls by auto
      then show ?thesis using oldk by blast
    qed
  qed
  then have "keys_distinct d'" using keys_distinct_iff [OF idd] by simp
  with idd below show ?thesis by (simp add: store_ok_def)
qed

lemma write_lines_Inr:
  assumes "write_lines e d ids w = (Inr b, d')"
  shows "d' = stored_write d ids w"
    and "check_no_duplicate_line d' (browse_lines d' ids) = None"
  using assms by (auto simp: write_lines_def Let_def split: if_splits option.splits)

lemma line_id_apply_write: "line_id (apply_write w l) = line_id l"
  by (simp add: apply_write_def)

lemma write_preserves_store_ok:
  assumes ok: "store_ok d" and c: "write_lines e d ids w = (Inr b, d')"
  shows "store_ok d'"
proof -
  note r = write_lines_Inr [OF c]
  let ?f = "\<lambda>l. if line_id l \<in> set ids then apply_write w l else l"
  have ls: "lines d' = map ?f (lines d)" and nx: "next_line_id d' = next_line_id d"
    by (simp_all add: r(1) stored_write_def)
  have idm: "map line_id (lines d') = map line_id (lines d)"
    unfolding ls by (simp add: line_id_apply_write comp_def)
  have idd: "ids_distinct d'"
    using ok unfolding ids_distinct_def store_ok_def idm by simp
  have below: "list_all (\<lambda>l. line_id l < next_line_id d') (lines d')"
    using ok unfolding store_ok_def nx ls list_all_iff by (auto simp: line_id_apply_write)
  have chk: "\<forall>l\<in>set (lines d'). line_id l \<in> set ids \<longrightarrow> (\<forall>x\<in>set (lines d'). \<not> duplicate_domain l x)"
    using r(2) by (simp add: check_no_duplicate_line_None set_browse_lines)
  have oldk: "\<forall>x\<in>set (lines d). \<forall>y\<in>set (lines d). \<not> duplicate_domain x y"
    using ok keys_distinct_no_duplicate unfolding store_ok_def by blast
  have unch: "x \<in> set (lines d)" if "x \<in> set (lines d')" "line_id x \<notin> set ids" for x
    using that unfolding ls by (auto simp: line_id_apply_write split: if_splits)
  have "\<forall>x\<in>set (lines d'). \<forall>y\<in>set (lines d'). \<not> duplicate_domain x y"
  proof (intro ballI)
    fix x y assume x: "x \<in> set (lines d')" and y: "y \<in> set (lines d')"
    show "\<not> duplicate_domain x y"
    proof (cases "line_id x \<in> set ids \<or> line_id y \<in> set ids")
      case True
      then show ?thesis using chk x y duplicate_domain_sym by blast
    next
      case False
      then have "x \<in> set (lines d)" "y \<in> set (lines d)" using x y unch by auto
      then show ?thesis using oldk by blast
    qed
  qed
  then have "keys_distinct d'" using keys_distinct_iff [OF idd] by simp
  with idd below show ?thesis by (simp add: store_ok_def)
qed

lemma create_refuses_duplicate:
  assumes "l \<in> set (new_lines e d vals)" and "x \<in> set (lines d @ new_lines e d vals)"
    and "duplicate_domain l x"
  shows "\<exists>err. fst (create e d vals) = Inl err"
proof -
  let ?d1 = "d \<lparr> lines := lines d @ new_lines e d vals, next_line_id := next_line_id d + length vals \<rparr>"
  have "check_no_duplicate_line ?d1 (new_lines e d vals) \<noteq> None"
    using assms by (auto simp: check_no_duplicate_line_None)
  then show ?thesis
    by (auto simp: create_def Let_def split: option.splits)
qed

lemma write_refuses_duplicate:
  assumes "l \<in> set (browse_lines (stored_write d ids w) ids)"
    and "x \<in> set (lines (stored_write d ids w))" and "duplicate_domain l x"
  shows "\<exists>err. fst (write_lines e d ids w) = Inl err"
proof -
  have "check_no_duplicate_line (stored_write d ids w) (browse_lines (stored_write d ids w) ids) \<noteq> None"
    using assms by (auto simp: check_no_duplicate_line_None)
  then show ?thesis
    by (auto simp: write_lines_def Let_def split: option.splits)
qed

lemma store_ok_pairwise:
  assumes "store_ok d" "x \<in> set (lines d)" "y \<in> set (lines d)" "x \<noteq> y"
    "inventory_id x = inventory_id y"
  shows "dimension_key x \<noteq> dimension_key y"
proof
  assume "dimension_key x = dimension_key y"
  with assms(5) have "(inventory_id x, dimension_key x) = (inventory_id y, dimension_key y)" by simp
  moreover have "inj_on (\<lambda>l. (inventory_id l, dimension_key l)) (set (lines d))"
    using assms(1) unfolding store_ok_def keys_distinct_def by (simp add: distinct_map)
  ultimately have "x = y" using assms(2,3) by (simp add: inj_on_def)
  with assms(4) show False by simp
qed

lemma create_duplicate_error:
  assumes "l \<in> set (new_lines e d vals)" and "x \<in> set (lines d @ new_lines e d vals)"
    and "duplicate_domain l x"
    and "list_all required_set (new_lines e d vals)" and "check_product_id e (new_lines e d vals) = None"
  shows "fst (create e d vals) = Inl UserError_duplicate_line"
proof -
  let ?d1 = "d \<lparr> lines := lines d @ new_lines e d vals, next_line_id := next_line_id d + length vals \<rparr>"
  have "check_no_duplicate_line ?d1 (new_lines e d vals) \<noteq> None"
    using assms(1-3) by (auto simp: check_no_duplicate_line_None)
  moreover have "check_no_duplicate_line d' ls = Some err \<Longrightarrow> err = UserError_duplicate_line" for d' ls err
    by (induction ls) (auto simp: Let_def split: if_splits)
  ultimately show ?thesis using assms(4,5)
    by (auto simp: create_def Let_def split: option.splits)
qed

lemma write_duplicate_error:
  assumes "l \<in> set (browse_lines (stored_write d ids w) ids)"
    and "x \<in> set (lines (stored_write d ids w))" and "duplicate_domain l x"
    and "list_all required_set (browse_lines (stored_write d ids w) ids)"
    and "w_product_id w = None \<or> check_product_id e (browse_lines (stored_write d ids w) ids) = None"
  shows "fst (write_lines e d ids w) = Inl UserError_duplicate_line"
proof -
  have "check_no_duplicate_line (stored_write d ids w) (browse_lines (stored_write d ids w) ids) \<noteq> None"
    using assms(1-3) by (auto simp: check_no_duplicate_line_None)
  moreover have "check_no_duplicate_line d' ls = Some err \<Longrightarrow> err = UserError_duplicate_line" for d' ls err
    by (induction ls) (auto simp: Let_def split: if_splits)
  ultimately show ?thesis using assms(4,5)
    by (auto simp: write_lines_def Let_def split: option.splits)
qed

lemma generate_moves_vals_Nil:
  "(\<forall>l\<in>set ls. float_is_zero (difference_qty l) (rounding e (uom_id e (product_id l))))
     \<Longrightarrow> generate_moves_vals e d ls = []"
  by (induction ls) (simp_all add: Let_def)

lemma snapshot_line_balanced:
  assumes "prefill_counted_quantity inventory \<noteq> Zero"
  shows "difference_qty (new_line e i (complete_values e (snapshot_vals e inventory kq))) = 0"
  using assms
  by (simp add: snapshot_vals_def complete_values_def new_line_def difference_qty_def Let_def
        split: prod.splits)

lemma exhausted_line_balanced:
  "difference_qty (new_line e i (complete_values e (exhausted_vals j p l))) = 0"
  by (simp add: exhausted_vals_def complete_values_def new_line_def difference_qty_def Let_def)

lemma set_get_exhausted:
  "v \<in> set (get_exhausted_inventory_lines_vals e inventory s) \<Longrightarrow>
     \<exists>p l. v = exhausted_vals (inv_id inventory) p l"
  by (auto simp: get_exhausted_inventory_lines_vals_def Let_def split: if_splits)

lemma set_get_inventory_lines_values:
  assumes "v \<in> set (get_inventory_lines_values e d inventory)"
  shows "(\<exists>kq. v = snapshot_vals e inventory kq) \<or> (\<exists>p l. v = exhausted_vals (inv_id inventory) p l)"
proof -
  from assms consider "v \<in> set (map (snapshot_vals e inventory) (get_quantities e d inventory))"
    | s where "v \<in> set (get_exhausted_inventory_lines_vals e inventory s)"
    by (auto simp: get_inventory_lines_values_def Let_def split: if_splits)
  then show ?thesis
  proof cases
    case 1
    then have "v \<in> snapshot_vals e inventory ` set (get_quantities e d inventory)" by simp
    then show ?thesis by blast
  next
    case 2 then show ?thesis using set_get_exhausted by blast
  qed
qed

lemma set_new_lines:
  "l \<in> set (new_lines e d vals) \<Longrightarrow> \<exists>i v. v \<in> set vals \<and> l = new_line e i (complete_values e v)"
  by (auto simp: new_lines_def Let_def dest: set_zip_rightD)

lemma prefilled_lines_balanced:
  assumes "prefill_counted_quantity inventory \<noteq> Zero"
    and "l \<in> set (new_lines e d (get_inventory_lines_values e d inventory))"
  shows "difference_qty l = 0"
proof -
  from set_new_lines [OF assms(2)] obtain i v
    where v: "v \<in> set (get_inventory_lines_values e d inventory)"
      and l: "l = new_line e i (complete_values e v)" by blast
  from set_get_inventory_lines_values [OF v] show ?thesis
    unfolding l using snapshot_line_balanced [OF assms(1)] exhausted_line_balanced by auto
qed

lemma prefilled_lines_no_moves:
  assumes "prefill_counted_quantity inventory \<noteq> Zero" and "\<forall>u. 0 < rounding e u"
  shows "generate_moves_vals e d' (new_lines e d (get_inventory_lines_values e d inventory)) = []"
proof (rule generate_moves_vals_Nil, rule ballI)
  fix l assume "l \<in> set (new_lines e d (get_inventory_lines_values e d inventory))"
  then have "difference_qty l = 0" by (rule prefilled_lines_balanced [OF assms(1)])
  then show "float_is_zero (difference_qty l) (rounding e (uom_id e (product_id l)))"
    using assms(2) by (simp add: float_is_zero_0)
qed

lemma move_create_Nil: "move_create d [] = ([], d)"
  by (simp add: move_create_def)

lemma action_check_loop_no_moves:
  assumes "\<forall>v\<in>set invs. \<forall>l\<in>set (line_ids d (inv_id v)).
             float_is_zero (difference_qty l) (rounding e (uom_id e (product_id l)))"
  shows "action_check_loop e d invs =
           d \<lparr> moves := filter (\<lambda>m. \<not> m2o_in (mv_inventory_id (move_values m)) (map inv_id invs)) (moves d) \<rparr>"
  using assms
proof (induction invs arbitrary: d)
  case Nil
  then show ?case by (simp add: m2o_in_def split: option.splits)
next
  case (Cons v invs)
  let ?d1 = "unlink_moves d (inv_id v)"
  have l1: "line_ids ?d1 j = line_ids d j" for j
    by (simp add: line_ids_def unlink_moves_def)
  have g: "generate_moves_vals e ?d1 (line_ids ?d1 (inv_id v)) = []"
    using Cons.prems by (intro generate_moves_vals_Nil) (simp add: l1)
  have step: "action_check_loop e d (v # invs) = action_check_loop e ?d1 invs"
    by (simp add: Let_def generate_moves_def g move_create_Nil)
  have "action_check_loop e ?d1 invs =
          ?d1 \<lparr> moves := filter (\<lambda>m. \<not> m2o_in (mv_inventory_id (move_values m)) (map inv_id invs)) (moves ?d1) \<rparr>"
    using Cons.prems by (intro Cons.IH) (simp add: l1)
  also have "\<dots> = d \<lparr> moves := filter (\<lambda>m. \<not> m2o_in (mv_inventory_id (move_values m)) (map inv_id (v # invs))) (moves d) \<rparr>"
    by (auto simp: unlink_moves_def m2o_in_def intro!: filter_cong split: option.splits)
  finally show ?case using step by simp
qed

lemma browse_inventory_id: "browse_inventory d (Some i) = Some v \<Longrightarrow> inv_id v = i"
  by (auto simp: browse_inventory_def find_Some_iff)

lemma inv_id_browse_inventories: "v \<in> set (browse_inventories d ids) \<Longrightarrow> inv_id v \<in> set ids"
  by (auto simp: browse_inventories_def)

lemma action_start_single:
  assumes "browse_inventory d (Some i) = Some inventory" and "state inventory = Draft"
    and "action_start e d [i] = (Inr (), d2)"
  shows "\<exists>res d1. (if line_ids d i = [] \<and> \<not> start_empty inventory
                     then create e d (get_inventory_lines_values e d inventory)
                     else (Inr [], d)) = (Inr res, d1)
                  \<and> d2 = update_inventory d1 i (\<lambda>v. v \<lparr> state := Confirm, date := now e \<rparr>)"
  using assms by (auto split: if_splits sum.splits prod.splits)

lemma line_ids_update_inventory: "line_ids (update_inventory d i f) j = line_ids d j"
  by (simp add: line_ids_def update_inventory_def)

lemma started_lines_balanced:
  assumes b: "browse_inventory d (Some i) = Some inventory" and s: "state inventory = Draft"
    and n: "line_ids d i = []" and p: "prefill_counted_quantity inventory \<noteq> Zero"
    and a: "action_start e d [i] = (Inr (), d2)" and l: "l \<in> set (line_ids d2 i)"
  shows "difference_qty l = 0"
proof -
  from action_start_single [OF b s a] obtain res d1
    where c: "(if line_ids d i = [] \<and> \<not> start_empty inventory
                     then create e d (get_inventory_lines_values e d inventory)
                     else (Inr [], d)) = (Inr res, d1)"
      and d2: "d2 = update_inventory d1 i (\<lambda>v. v \<lparr> state := Confirm, date := now e \<rparr>)" by blast
  have l1: "l \<in> set (line_ids d1 i)" using l unfolding d2 line_ids_update_inventory .
  show ?thesis
  proof (cases "start_empty inventory")
    case True
    with c have "d1 = d" by simp
    with l1 n show ?thesis by simp
  next
    case False
    with c n have cr: "create e d (get_inventory_lines_values e d inventory) = (Inr res, d1)" by simp
    note r = create_Inr [OF cr]
    have "line_ids d1 i = line_ids d i @ filter (\<lambda>l. inventory_id l = Some i) res"
      by (simp add: r(2) line_ids_def)
    with l1 n have "l \<in> set (new_lines e d (get_inventory_lines_values e d inventory))"
      using r(1) by auto
    then show ?thesis by (rule prefilled_lines_balanced [OF p])
  qed
qed

lemma started_inventory_checked:
  assumes b: "browse_inventory d (Some i) = Some inventory" and s: "state inventory = Draft"
    and a: "action_start e d [i] = (Inr (), d2)"
  shows "\<exists>v. v \<in> set (filter (\<lambda>x. state x \<notin> {Done, Cancel}) (browse_inventories d2 [i]))"
proof -
  from action_start_single [OF b s a] obtain res d1
    where c: "(if line_ids d i = [] \<and> \<not> start_empty inventory
                     then create e d (get_inventory_lines_values e d inventory)
                     else (Inr [], d)) = (Inr res, d1)"
      and d2: "d2 = update_inventory d1 i (\<lambda>v. v \<lparr> state := Confirm, date := now e \<rparr>)" by blast
  have "inventories d1 = inventories d"
  proof (cases "line_ids d i = [] \<and> \<not> start_empty inventory")
    case True
    with c have "create e d (get_inventory_lines_values e d inventory) = (Inr res, d1)" by simp
    from create_Inr(2) [OF this] show ?thesis by simp
  next
    case False
    with c show ?thesis by auto
  qed
  moreover have "inventory \<in> set (inventories d)" and "inv_id inventory = i"
    using b by (auto simp: browse_inventory_def find_Some_iff in_set_conv_nth)
  ultimately have "inventory \<lparr> state := Confirm, date := now e \<rparr> \<in> set (inventories d2)"
    unfolding d2 update_inventory_def by force
  then have "inventory \<lparr> state := Confirm, date := now e \<rparr>
      \<in> set (filter (\<lambda>x. state x \<notin> {Done, Cancel}) (browse_inventories d2 [i]))"
    using \<open>inv_id inventory = i\<close> by (simp add: browse_inventories_def)
  then show ?thesis by blast
qed

lemma zip_upt_Cons:
  "zip [n ..< n + length (v # vs)] (v # vs) = (n, v) # zip [Suc n ..< Suc n + length vs] vs"
  using upt_conv_Cons [of n "n + length (v # vs)"] by simp

lemma new_lines_Nil: "new_lines e d [] = []"
  by (simp add: new_lines_def)

lemma new_lines_Cons:
  "new_lines e d (v # vs) =
     new_line e (next_line_id d) (complete_values e v)
       # new_lines e (d \<lparr> next_line_id := Suc (next_line_id d) \<rparr>) vs"
  unfolding new_lines_def Let_def zip_upt_Cons by simp

lemma ex_get_quantities:
  "get_quantities ex_env ex_db (ex_inventory 3 Draft [12]) =
     [((Some 1, Some 12, None, None, None), 7), ((Some 2, Some 12, Some 7, None, None), 1)]"
  by (simp add: get_quantities_def read_group_def quant_domain_def domain_loc_def child_of_def
        m2o_in_def quant_key_def ex_db_def ex_inventory_def ex_location_def ex_quant_def ex_env_def)

lemma ex_browse_inventory_3:
  "browse_inventory ex_db (Some 3) = Some (ex_inventory 3 Draft [12])"
  by (simp add: browse_inventory_def ex_db_def ex_inventory_def)

lemma ex_action_start: "action_start ex_env ex_db [3] = (Inr (), ex_db_started)"
proof -
  have v: "get_inventory_lines_values ex_env ex_db (ex_inventory 3 Draft [12]) =
      map (snapshot_vals ex_env (ex_inventory 3 Draft [12]))
        [((Some 1, Some 12, None, None, None), 7), ((Some 2, Some 12, Some 7, None, None), 1)]"
    unfolding get_inventory_lines_values_def ex_get_quantities
    by (simp add: ex_inventory_def)
  have n: "line_ids ex_db 3 = []"
    by (simp add: line_ids_def ex_db_def ex_line_def)
  have c: "create ex_env ex_db (map (snapshot_vals ex_env (ex_inventory 3 Draft [12]))
        [((Some 1, Some 12, None, None, None), 7), ((Some 2, Some 12, Some 7, None, None), 1)])
      = (Inr [ex_started_line 5 1 None 7, ex_started_line 6 2 (Some 7) 1],
         ex_db \<lparr> lines := lines ex_db @ [ex_started_line 5 1 None 7, ex_started_line 6 2 (Some 7) 1],
                 next_line_id := 7 \<rparr>)"
    by (simp add: create_def new_lines_Nil new_lines_Cons new_line_def complete_values_def
          snapshot_vals_def required_set_def duplicate_domain_def Let_def ex_started_line_def
          ex_inventory_def ex_env_def ex_db_def ex_line_def)
  have st: "state (ex_inventory 3 Draft [12]) = Draft" "\<not> start_empty (ex_inventory 3 Draft [12])"
    by (simp_all add: ex_inventory_def)
  have u: "update_inventory
             (ex_db \<lparr> lines := lines ex_db @ [ex_started_line 5 1 None 7, ex_started_line 6 2 (Some 7) 1],
                     next_line_id := 7 \<rparr>) 3 (\<lambda>v. v \<lparr> state := Confirm, date := now ex_env \<rparr>)
           = ex_db_started"
    by (simp add: update_inventory_def ex_db_started_def ex_db_def ex_inventory_def ex_env_def)
  show ?thesis
    by (simp only: action_start.simps ex_browse_inventory_3 option.case st n v c u
          prod.case sum.case simp_thms if_True if_False)
qed

lemma fst_add_to_group: "fst ` set (add_to_group k v acc) = insert k (fst ` set acc)"
proof (induction acc)
  case Nil
  then show ?case by simp
next
  case (Cons a acc)
  obtain k' s where a: "a = (k', s)" by (cases a)
  show ?case
  proof (cases "k' = k")
    case True
    then show ?thesis unfolding a by simp
  next
    case False
    then show ?thesis unfolding a by (simp add: Cons.IH insert_commute)
  qed
qed

lemma distinct_add_to_group:
  "distinct (map fst acc) \<Longrightarrow> distinct (map fst (add_to_group k v acc))"
proof (induction acc)
  case Nil
  then show ?case by simp
next
  case (Cons a acc)
  obtain k' s where a: "a = (k', s)" by (cases a)
  have "k' \<notin> fst ` set (add_to_group k v acc)" if "k' \<noteq> k"
    using that Cons.prems unfolding fst_add_to_group a by auto
  with Cons show ?case unfolding a by (auto simp: image_iff)
qed

lemma map_of_add_to_group:
  "map_of (add_to_group k v acc) =
     (map_of acc)(k \<mapsto> (case map_of acc k of None \<Rightarrow> v | Some s \<Rightarrow> s + v))"
  by (induction acc) (auto simp: fun_eq_iff)

lemma foldl_groups:
  fixes f :: "'a \<Rightarrow> 'k" and g :: "'a \<Rightarrow> real"
  assumes "distinct (map fst acc)"
  shows "distinct (map fst (foldl (\<lambda>acc q. add_to_group (f q) (g q) acc) acc qs))
       \<and> (\<forall>k. map_of (foldl (\<lambda>acc q. add_to_group (f q) (g q) acc) acc qs) k =
            (if k \<in> dom (map_of acc) \<union> f ` set qs
             then Some ((case map_of acc k of None \<Rightarrow> 0 | Some s \<Rightarrow> s)
                        + sum_list (map g (filter (\<lambda>x. f x = k) qs)))
             else None))"
  using assms
proof (induction qs arbitrary: acc)
  case Nil
  show ?case using Nil by (auto simp: dom_def split: option.splits)
next
  case (Cons q qs)
  let ?step = "\<lambda>acc q. add_to_group (f q) (g q) acc"
  let ?acc = "add_to_group (f q) (g q) acc"
  have d: "distinct (map fst ?acc)"
    using Cons.prems by (simp add: distinct_add_to_group)
  note ih = Cons.IH [OF d]
  show ?case
  proof (intro conjI allI)
    show "distinct (map fst (foldl ?step acc (q # qs)))" using ih by simp
    fix k
    have keys: "dom (map_of ?acc) = insert (f q) (dom (map_of acc))"
      by (simp add: map_of_add_to_group)
    have m: "map_of ?acc k =
        (if k = f q then Some ((case map_of acc k of None \<Rightarrow> 0 | Some s \<Rightarrow> s) + g q)
         else map_of acc k)"
      by (simp add: map_of_add_to_group split: option.splits)
    have "map_of (foldl ?step acc (q # qs)) k = map_of (foldl ?step ?acc qs) k" by simp
    also have "\<dots> = (if k \<in> dom (map_of ?acc) \<union> f ` set qs
             then Some ((case map_of ?acc k of None \<Rightarrow> 0 | Some s \<Rightarrow> s)
                        + sum_list (map g (filter (\<lambda>x. f x = k) qs)))
             else None)"
      using ih by blast
    also have "\<dots> = (if k \<in> dom (map_of acc) \<union> f ` set (q # qs)
             then Some ((case map_of acc k of None \<Rightarrow> 0 | Some s \<Rightarrow> s)
                        + sum_list (map g (filter (\<lambda>x. f x = k) (q # qs))))
             else None)"
      unfolding keys m by (auto simp: dom_def split: option.splits)
    finally show "map_of (foldl ?step acc (q # qs)) k =
        (if k \<in> dom (map_of acc) \<union> f ` set (q # qs)
             then Some ((case map_of acc k of None \<Rightarrow> 0 | Some s \<Rightarrow> s)
                        + sum_list (map g (filter (\<lambda>x. f x = k) (q # qs))))
             else None)" .
  qed
qed

lemma distinct_read_group: "distinct (map fst (read_group qs))"
  using foldl_groups [of "[]" quant_key quantity qs] by (simp add: read_group_def)

lemma read_group_entry:
  assumes "(k, v) \<in> set (read_group qs)"
  shows "k \<in> quant_key ` set qs \<and> v = sum_list (map quantity (filter (\<lambda>x. quant_key x = k) qs))"
proof -
  have a: "map_of (read_group qs) k = Some v"
    using assms distinct_read_group by simp
  have b: "map_of (read_group qs) k =
      (if k \<in> quant_key ` set qs
       then Some (sum_list (map quantity (filter (\<lambda>x. quant_key x = k) qs))) else None)"
    using foldl_groups [of "[]" quant_key quantity qs, THEN conjunct2, THEN spec, of k]
    by (simp add: read_group_def)
  show ?thesis
  proof (cases "k \<in> quant_key ` set qs")
    case True
    with a b show ?thesis by simp
  next
    case False
    with a b show ?thesis by simp
  qed
qed

lemma sum_list_negative:
  fixes xs :: "real list"
  shows "xs \<noteq> [] \<Longrightarrow> \<forall>x\<in>set xs. x < 0 \<Longrightarrow> sum_list xs < 0"
proof (induction xs)
  case Nil
  then show ?case by simp
next
  case (Cons a xs)
  then show ?case by (cases xs) (auto intro: add_neg_neg)
qed

lemma quant_domain_cases:
  assumes "quant_domain e d inventory x"
  shows "(if is_conflict_inventory inventory \<and> lot_ids inventory = [] then quantity x < 0
          else quantity x \<noteq> 0)"
    and "lot_ids inventory \<noteq> [] \<Longrightarrow> q_lot_id x \<in> Some ` set (lot_ids inventory)"
    and "product_ids inventory \<noteq> [] \<Longrightarrow> q_product_id x \<in> Some ` set (product_ids inventory)"
    and "prefill_counted_quantity inventory = Zero \<Longrightarrow> product_active e (q_product_id x)"
  using assms
  by (auto simp: quant_domain_def Let_def m2o_in_def split: option.splits if_splits)

lemma ex_get_quantities_cancelling:
  "get_quantities ex_env ex_db_cancelling (ex_inventory 1 Confirm [10]) =
     [((Some 1, Some 10, None, None, None), 0)]"
  by (simp add: get_quantities_def read_group_def quant_domain_def domain_loc_def child_of_def
        m2o_in_def quant_key_def ex_db_cancelling_def ex_db_def ex_inventory_def ex_location_def
        ex_quant_def ex_env_def)

lemma ex_get_quantities_conflict:
  "get_quantities ex_env ex_db_conflict ex_conflict_inventory =
     [((Some 1, Some 12, None, None, None), - 5)]"
  by (simp add: get_quantities_def read_group_def quant_domain_def domain_loc_def child_of_def
        m2o_in_def quant_key_def ex_db_conflict_def ex_db_def ex_conflict_inventory_def
        ex_inventory_def ex_location_def ex_quant_def ex_env_def)

lemma ex_get_quantities_lot:
  "get_quantities ex_env ex_db ex_lot_inventory =
     [((Some 2, Some 12, Some 7, None, None), 1)]"
  by (simp add: get_quantities_def read_group_def quant_domain_def domain_loc_def child_of_def
        m2o_in_def quant_key_def ex_db_def ex_lot_inventory_def
        ex_inventory_def ex_location_def ex_quant_def ex_env_def)

lemma browse_inventory_cong:
  assumes "inventories d' = inventories d"
  shows "browse_inventory d' i = browse_inventory d i"
  by (simp only: browse_inventory_def assms)

lemma generate_moves_vals_cong:
  assumes "inventories d' = inventories d"
  shows "generate_moves_vals e d' ls = generate_moves_vals e d ls"
proof (induction ls)
  case Nil
  then show ?case by simp
next
  case (Cons l ls)
  have "get_virtual_location e d' l = get_virtual_location e d l"
    by (simp add: get_virtual_location_def line_company_id_def browse_inventory_cong [OF assms])
  moreover have "get_move_values d' l q a b out = get_move_values d l q a b out" for q a b out
    by (simp add: get_move_values_def line_company_id_def browse_inventory_cong [OF assms])
  ultimately show ?case using Cons by (simp add: Let_def)
qed

lemma generate_moves_vals_inventory:
  "m \<in> set (generate_moves_vals e d ls) \<Longrightarrow> mv_inventory_id m \<in> inventory_id ` set ls"
  by (induction ls) (auto simp: Let_def get_move_values_def split: if_splits)

lemma action_check_step:
  fixes e d v
  defines "d2 \<equiv> snd (generate_moves e (unlink_moves d (inv_id v))
                         (line_ids (unlink_moves d (inv_id v)) (inv_id v)))"
  shows "lines d2 = lines d" and "inventories d2 = inventories d"
    and "map move_values (move_ids d2 (inv_id v)) = generate_moves_vals e d (line_ids d (inv_id v))"
    and "j \<noteq> inv_id v \<Longrightarrow> move_ids d2 j = move_ids d j"
proof -
  let ?d1 = "unlink_moves d (inv_id v)"
  let ?vals = "generate_moves_vals e ?d1 (line_ids ?d1 (inv_id v))"
  let ?ms = "fst (move_create ?d1 ?vals)"
  have d2: "d2 = ?d1 \<lparr> moves := moves ?d1 @ ?ms, next_move_id := next_move_id ?d1 + length ?vals \<rparr>"
    unfolding d2_def generate_moves_def by (simp add: move_create_def Let_def)
  show l: "lines d2 = lines d" and i: "inventories d2 = inventories d"
    unfolding d2 by (simp_all add: unlink_moves_def)
  have i1: "inventories ?d1 = inventories d" and l1: "line_ids ?d1 (inv_id v) = line_ids d (inv_id v)"
    by (simp_all add: unlink_moves_def line_ids_def)
  have vals: "?vals = generate_moves_vals e d (line_ids d (inv_id v))"
    unfolding l1 by (rule generate_moves_vals_cong [OF i1])
  have mv: "map move_values ?ms = ?vals" by (rule move_create_values)
  have own: "\<forall>m\<in>set ?ms. mv_inventory_id (move_values m) = Some (inv_id v)"
  proof
    fix m assume "m \<in> set ?ms"
    then have "move_values m \<in> set ?vals" using mv by (metis image_eqI list.set_map)
    from generate_moves_vals_inventory [OF this]
    show "mv_inventory_id (move_values m) = Some (inv_id v)"
      by (auto simp: line_ids_def)
  qed
  have f1: "filter (\<lambda>m. mv_inventory_id (move_values m) = Some (inv_id v)) ?ms = ?ms"
    using own by (simp add: filter_id_conv)
  have f2: "filter (\<lambda>m. mv_inventory_id (move_values m) = Some j) ?ms = []" if "j \<noteq> inv_id v"
    using own that by (auto simp: filter_empty_conv)
  have "move_ids d2 (inv_id v) = ?ms"
    unfolding d2 move_ids_def by (simp add: f1) (simp add: unlink_moves_def)
  then show "map move_values (move_ids d2 (inv_id v)) = generate_moves_vals e d (line_ids d (inv_id v))"
    using mv vals by simp
  show "move_ids d2 j = move_ids d j" if "j \<noteq> inv_id v"
    unfolding d2 move_ids_def using that
    by (simp add: f2 [OF that]) (auto simp: unlink_moves_def intro: filter_cong)
qed

lemma action_check_loop_frame:
  "lines (action_check_loop e d invs) = lines d \<and> inventories (action_check_loop e d invs) = inventories d"
proof (induction invs arbitrary: d)
  case Nil
  then show ?case by simp
next
  case (Cons v invs)
  show ?case
    using Cons [of "snd (generate_moves e (unlink_moves d (inv_id v))
                         (line_ids (unlink_moves d (inv_id v)) (inv_id v)))"]
      action_check_step(1,2) [where e = e and d = d and v = v]
    by (simp add: Let_def)
qed

lemma action_check_loop_moves:
  "map move_values (move_ids (action_check_loop e d invs) j) =
     (if j \<in> inv_id ` set invs then generate_moves_vals e d (line_ids d j)
      else map move_values (move_ids d j))"
proof (induction invs arbitrary: d)
  case Nil
  then show ?case by simp
next
  case (Cons v invs)
  define d2 where "d2 = snd (generate_moves e (unlink_moves d (inv_id v))
                         (line_ids (unlink_moves d (inv_id v)) (inv_id v)))"
  note st = action_check_step [where e = e and d = d and v = v, folded d2_def]
  have loop: "action_check_loop e d (v # invs) = action_check_loop e d2 invs"
    by (simp add: Let_def d2_def)
  have g: "generate_moves_vals e d2 (line_ids d2 j) = generate_moves_vals e d (line_ids d j)"
    using generate_moves_vals_cong [OF st(2)] st(1) by (simp add: line_ids_def)
  show ?case
  proof (cases "j \<in> inv_id ` set invs")
    case True
    then show ?thesis unfolding loop Cons [of d2] g by simp
  next
    case False
    show ?thesis
    proof (cases "j = inv_id v")
      case True
      with False show ?thesis unfolding loop Cons [of d2] using st(3) by simp
    next
      case ne: False
      with False show ?thesis unfolding loop Cons [of d2] using st(4) [OF ne] by simp
    qed
  qed
qed

lemma action_check_loop_others:
  "j \<notin> inv_id ` set invs \<Longrightarrow> move_ids (action_check_loop e d invs) j = move_ids d j"
proof (induction invs arbitrary: d)
  case Nil
  then show ?case by simp
next
  case (Cons v invs)
  define d2 where "d2 = snd (generate_moves e (unlink_moves d (inv_id v))
                         (line_ids (unlink_moves d (inv_id v)) (inv_id v)))"
  note st = action_check_step [where e = e and d = d and v = v, folded d2_def]
  have loop: "action_check_loop e d (v # invs) = action_check_loop e d2 invs"
    by (simp add: Let_def d2_def)
  from Cons.prems have "j \<notin> inv_id ` set invs" and ne: "j \<noteq> inv_id v" by auto
  then show ?case unfolding loop using Cons.IH [of d2] st(4) [OF ne] by simp
qed

lemma browse_inventories_cong:
  assumes "inventories d' = inventories d"
  shows "browse_inventories d' ids = browse_inventories d ids"
  by (simp only: browse_inventories_def assms)

lemma ex_checked:
  "filter (\<lambda>x. state x \<notin> {Done, Cancel}) (browse_inventories ex_db [1, 2]) = [ex_inventory 1 Confirm [10]]"
  "filter (\<lambda>x. state x \<notin> {Done, Cancel}) (browse_inventories ex_db [2]) = []"
  by (simp_all add: browse_inventories_def ex_db_def ex_inventory_def)

lemma ex_generate_moves_vals:
  "map mv_product_uom_qty (generate_moves_vals ex_env ex_db (line_ids ex_db 1)) = [3, 1]"
  by (simp add: line_ids_def ex_db_def ex_line_def ex_env_def Let_def difference_qty_def
        get_move_values_def float_is_zero_def float_round_def)

lemma set_cyclic_locations:
  "set (cyclic_locations e d company) =
     {l \<in> set (due_locations e d company).
        \<forall>a\<in>set (path_ancestors l). a \<notin> loc_id ` set (due_locations e d company)}"
  by (auto simp: cyclic_locations_def Let_def list_ex_iff)

lemma set_locations_to_create:
  "set (locations_to_create e d company) \<subseteq> set (cyclic_locations e d company)"
  by (auto simp: locations_to_create_def Let_def)

lemma ex_due_locations:
  "due_locations ex_env ex_db_cyclic None = [ex_location 10 [1, 10] (Some 9), ex_location 11 [1, 10, 11] (Some 10)]"
  by (simp add: due_locations_def company_domain_def ex_db_cyclic_def ex_db_def ex_location_def ex_env_def)

lemma ex_cyclic_locations:
  "cyclic_locations ex_env ex_db_cyclic None = [ex_location 10 [1, 10] (Some 9)]"
  unfolding cyclic_locations_def ex_due_locations
  by (simp add: path_ancestors_def ex_location_def)

lemma ex_locations_to_create:
  "locations_to_create ex_env ex_db_cyclic None = [ex_location 10 [1, 10] (Some 9)]"
  unfolding locations_to_create_def ex_cyclic_locations
  by (simp add: existing_loc_invs_def browse_location_def path_ancestors_def Let_def
        ex_db_cyclic_def ex_db_def ex_inventory_def ex_location_def ex_env_def)

lemma create_store:
  "snd (create e d vals) = d \<or>
   snd (create e d vals) = d \<lparr> lines := lines d @ new_lines e d vals,
                                 next_line_id := next_line_id d + length vals \<rparr>"
  by (simp add: create_def Let_def split: option.splits)

lemma inventory_id_new_line:
  "inventory_id (new_line e i (complete_values e v)) = v_inventory_id v"
  by (simp add: new_line_def complete_values_def Let_def)

lemma inventory_id_lines_values:
  assumes "v \<in> set (get_inventory_lines_values e d inventory)"
  shows "v_inventory_id v = Some (inv_id inventory)"
  using set_get_inventory_lines_values [OF assms]
  by (auto simp: snapshot_vals_def exhausted_vals_def split: prod.splits)

lemma inventory_id_started_lines:
  assumes "l \<in> set (new_lines e d (get_inventory_lines_values e d inventory))"
  shows "inventory_id l = Some (inv_id inventory)"
proof -
  from set_new_lines [OF assms] obtain i v
    where "v \<in> set (get_inventory_lines_values e d inventory)"
      and "l = new_line e i (complete_values e v)" by blast
  then show ?thesis
    using inventory_id_lines_values inventory_id_new_line by metis
qed

lemma browse_update_other:
  assumes ne: "j \<noteq> k" and that: "\<And>v. inv_id (f v) = inv_id v"
  shows "browse_inventory (update_inventory d j f) (Some k) = browse_inventory d (Some k)"
proof -
  have "find (\<lambda>v. inv_id v = k) (map (\<lambda>v. if inv_id v = j then f v else v) xs)
        = find (\<lambda>v. inv_id v = k) xs" for xs
    using ne that by (induction xs) auto
  then show ?thesis by (simp add: browse_inventory_def update_inventory_def)
qed

lemma start_step_frame:
  fixes e :: env
  assumes k: "browse_inventory d (Some k) = Some v" and nd: "state v \<noteq> Draft"
    and w: "browse_inventory d (Some i) = Some w" and dw: "state w = Draft"
  defines "r \<equiv> (if line_ids d i = [] \<and> \<not> start_empty w
                  then create e d (get_inventory_lines_values e d w) else (Inr [], d))"
  shows "browse_inventory (snd r) (Some k) = Some v" and "line_ids (snd r) k = line_ids d k"
    and "i \<noteq> k"
proof -
  show ne: "i \<noteq> k" using k nd w dw by auto
  have iw: "inv_id w = i" using w by (rule browse_inventory_id)
  have "snd r = d \<or> snd r = d \<lparr> lines := lines d @ new_lines e d (get_inventory_lines_values e d w),
            next_line_id := next_line_id d + length (get_inventory_lines_values e d w) \<rparr>"
    unfolding r_def using create_store [of e d "get_inventory_lines_values e d w"] by auto
  moreover have "filter (\<lambda>l. inventory_id l = Some k) (new_lines e d (get_inventory_lines_values e d w)) = []"
    using inventory_id_started_lines [of _ e d w] iw ne by (auto simp: filter_empty_conv)
  ultimately show "browse_inventory (snd r) (Some k) = Some v" and "line_ids (snd r) k = line_ids d k"
    using k by (auto simp: browse_inventory_def line_ids_def)
qed

lemma action_start_frame:
  assumes "browse_inventory d (Some k) = Some v" and "state v \<noteq> Draft"
  shows "browse_inventory (snd (action_start e d ids)) (Some k) = Some v
       \<and> line_ids (snd (action_start e d ids)) k = line_ids d k"
  using assms
proof (induction ids arbitrary: d)
  case Nil
  then show ?case by simp
next
  case (Cons i ids)
  show ?case
  proof (cases "browse_inventory d (Some i)")
    case None
    then show ?thesis using Cons by simp
  next
    case (Some w)
    show ?thesis
    proof (cases "state w = Draft")
      case False
      then show ?thesis using Some Cons by simp
    next
      case True
      define r where "r = (if line_ids d i = [] \<and> \<not> start_empty w
                  then create e d (get_inventory_lines_values e d w) else (Inr [], d))"
      note fr = start_step_frame(1,2) [OF Cons.prems Some True, where e = e, folded r_def]
        start_step_frame(3) [OF Cons.prems Some True]
      obtain res d1 where r: "r = (res, d1)" by (cases r)
      show ?thesis
      proof (cases res)
        case (Inl err)
        then show ?thesis
          using Some True fr r by (simp add: r_def [symmetric])
      next
        case (Inr x)
        let ?d2 = "update_inventory d1 i (\<lambda>v. v \<lparr> state := Confirm, date := now e \<rparr>)"
        have b: "browse_inventory ?d2 (Some k) = Some v"
          using fr r by (simp add: browse_update_other)
        have l: "line_ids ?d2 k = line_ids d k"
          using fr r by (simp add: line_ids_update_inventory)
        have "action_start e d (i # ids) = action_start e ?d2 ids"
          using Some True r Inr by (simp add: r_def [symmetric])
        then show ?thesis using Cons.IH [OF b Cons.prems(2)] l by simp
      qed
    qed
  qed
qed

lemma action_start_noop:
  assumes "\<forall>i\<in>set ids. \<forall>v. browse_inventory d (Some i) = Some v \<longrightarrow> state v \<noteq> Draft"
  shows "action_start e d ids = (Inr (), d)"
  using assms
proof (induction ids)
  case Nil
  then show ?case by simp
next
  case (Cons i ids)
  then show ?case by (cases "browse_inventory d (Some i)") auto
qed

lemma browse_update_same:
  assumes "browse_inventory d (Some i) = Some w" and idf: "\<And>v. inv_id (f v) = inv_id v"
  shows "browse_inventory (update_inventory d i f) (Some i) = Some (f w)"
proof -
  have "find (\<lambda>v. inv_id v = i) xs = Some w \<Longrightarrow>
        find (\<lambda>v. inv_id v = i) (map (\<lambda>v. if inv_id v = i then f v else v) xs) = Some (f w)" for xs
    using idf by (induction xs) (auto split: if_splits)
  then show ?thesis using assms(1) by (simp add: browse_inventory_def update_inventory_def)
qed

lemma action_start_draft:
  assumes w: "browse_inventory d (Some i) = Some w" and s: "state w = Draft"
    and a: "action_start e d [i] = (Inr (), d')"
  shows "browse_inventory d' (Some i) = Some (w \<lparr> state := Confirm, date := now e \<rparr>)"
    and "lines d' = (if line_ids d i = [] \<and> \<not> start_empty w
                     then lines d @ new_lines e d (get_inventory_lines_values e d w) else lines d)"
proof -
  from action_start_single [OF w s a] obtain res d1
    where c: "(if line_ids d i = [] \<and> \<not> start_empty w
                     then create e d (get_inventory_lines_values e d w)
                     else (Inr [], d)) = (Inr res, d1)"
      and d': "d' = update_inventory d1 i (\<lambda>v. v \<lparr> state := Confirm, date := now e \<rparr>)" by blast
  have d1: "inventories d1 = inventories d
      \<and> lines d1 = (if line_ids d i = [] \<and> \<not> start_empty w
                     then lines d @ new_lines e d (get_inventory_lines_values e d w) else lines d)"
  proof (cases "line_ids d i = [] \<and> \<not> start_empty w")
    case True
    with c have "create e d (get_inventory_lines_values e d w) = (Inr res, d1)" by simp
    from create_Inr(1,2) [OF this] True show ?thesis by simp
  next
    case False
    with c show ?thesis by auto
  qed
  have "browse_inventory d1 (Some i) = Some w"
    using w browse_inventory_cong [of d1 d] d1 by simp
  then show "browse_inventory d' (Some i) = Some (w \<lparr> state := Confirm, date := now e \<rparr>)"
    unfolding d' by (rule browse_update_same) simp
  show "lines d' = (if line_ids d i = [] \<and> \<not> start_empty w
                     then lines d @ new_lines e d (get_inventory_lines_values e d w) else lines d)"
    unfolding d' using d1 by (simp add: update_inventory_def)
qed

subsection \<open>One move per line with a difference\<close>

text \<open>
  C1. The moves created by \<open>_generate_moves\<close> are the moves emitted line by line, in
  order. A line emits no move when its difference is zero at the rounding of the
  product's unit (in particular when counted and theoretical quantity are equal and the
  rounding is positive), and exactly one move otherwise: when counted exceeds
  theoretical, a move of counted - theoretical from the virtual inventory location to
  the line's location, with the line's package as destination package and no source
  package; when counted is below theoretical, a move of the absolute difference from the
  line's location to the virtual location, with the line's package as source package
  and no destination package.
\<close>
theorem generate_moves_one_move_per_line:
  "map move_values (fst (generate_moves e d ls))
     = concat (map (\<lambda>l. map move_values (fst (generate_moves e d [l]))) ls)
   \<and> (\<forall>l. let emitted = map move_values (fst (generate_moves e d [l]));
              rnd = rounding e (uom_id e (product_id l));
              virtual_location = property_stock_inventory e (product_id l) (line_company_id d l)
          in (float_is_zero (product_qty l - theoretical_qty l) rnd \<longrightarrow> emitted = [])
           \<and> (0 < rnd \<and> product_qty l = theoretical_qty l \<longrightarrow> emitted = [])
           \<and> (\<not> float_is_zero (product_qty l - theoretical_qty l) rnd
                \<and> product_qty l > theoretical_qty l \<longrightarrow>
                (\<exists>m ml. emitted = [m] \<and> mv_move_line_ids m = [ml]
                   \<and> mv_product_uom_qty m = product_qty l - theoretical_qty l
                   \<and> ml_qty_done ml = product_qty l - theoretical_qty l
                   \<and> mv_location_id m = virtual_location \<and> mv_location_dest_id m = location_id l
                   \<and> ml_location_id ml = virtual_location \<and> ml_location_dest_id ml = location_id l
                   \<and> ml_result_package_id ml = package_id l \<and> ml_package_id ml = None))
           \<and> (\<not> float_is_zero (product_qty l - theoretical_qty l) rnd
                \<and> product_qty l < theoretical_qty l \<longrightarrow>
                (\<exists>m ml. emitted = [m] \<and> mv_move_line_ids m = [ml]
                   \<and> mv_product_uom_qty m = \<bar>product_qty l - theoretical_qty l\<bar>
                   \<and> ml_qty_done ml = \<bar>product_qty l - theoretical_qty l\<bar>
                   \<and> mv_location_id m = location_id l \<and> mv_location_dest_id m = virtual_location
                   \<and> ml_location_id ml = location_id l \<and> ml_location_dest_id ml = virtual_location
                   \<and> ml_package_id ml = package_id l \<and> ml_result_package_id ml = None)))"
proof (rule conjI)
  show "map move_values (fst (generate_moves e d ls))
     = concat (map (\<lambda>l. map move_values (fst (generate_moves e d [l]))) ls)"
    unfolding generate_moves_values by (rule generate_moves_vals_concat)
next
  show "(\<forall>l. let emitted = map move_values (fst (generate_moves e d [l]));
              rnd = rounding e (uom_id e (product_id l));
              virtual_location = property_stock_inventory e (product_id l) (line_company_id d l)
          in (float_is_zero (product_qty l - theoretical_qty l) rnd \<longrightarrow> emitted = [])
           \<and> (0 < rnd \<and> product_qty l = theoretical_qty l \<longrightarrow> emitted = [])
           \<and> (\<not> float_is_zero (product_qty l - theoretical_qty l) rnd
                \<and> product_qty l > theoretical_qty l \<longrightarrow>
                (\<exists>m ml. emitted = [m] \<and> mv_move_line_ids m = [ml]
                   \<and> mv_product_uom_qty m = product_qty l - theoretical_qty l
                   \<and> ml_qty_done ml = product_qty l - theoretical_qty l
                   \<and> mv_location_id m = virtual_location \<and> mv_location_dest_id m = location_id l
                   \<and> ml_location_id ml = virtual_location \<and> ml_location_dest_id ml = location_id l
                   \<and> ml_result_package_id ml = package_id l \<and> ml_package_id ml = None))
           \<and> (\<not> float_is_zero (product_qty l - theoretical_qty l) rnd
                \<and> product_qty l < theoretical_qty l \<longrightarrow>
                (\<exists>m ml. emitted = [m] \<and> mv_move_line_ids m = [ml]
                   \<and> mv_product_uom_qty m = \<bar>product_qty l - theoretical_qty l\<bar>
                   \<and> ml_qty_done ml = \<bar>product_qty l - theoretical_qty l\<bar>
                   \<and> mv_location_id m = location_id l \<and> mv_location_dest_id m = virtual_location
                   \<and> ml_location_id ml = location_id l \<and> ml_location_dest_id ml = virtual_location
                   \<and> ml_package_id ml = package_id l \<and> ml_result_package_id ml = None)))"
    unfolding generate_moves_values Let_def
    by (simp add: Let_def difference_qty_def get_virtual_location_def get_move_values_def
          float_is_zero_0)
qed

text \<open>On the example store: line 1 (7 counted, 10 expected) gives a move of 3 out of
  location 10 with package 5 as source; line 2 (1 counted, 0 expected) gives a move of 1
  into location 10 with package 6 as destination; line 4 (5 and 5) gives none.\<close>
theorem generate_moves_witness:
  "\<not> float_is_zero (7 - 10) (1 / 100) \<and> (7::real) < 10
   \<and> (\<exists>m ml. map move_values (fst (generate_moves ex_env ex_db [ex_line 1 1 1 10 None (Some 5) 7 10])) = [m]
          \<and> mv_move_line_ids m = [ml] \<and> mv_product_uom_qty m = 3 \<and> ml_qty_done ml = 3
          \<and> mv_location_id m = Some 10 \<and> mv_location_dest_id m = Some 99
          \<and> ml_location_id ml = Some 10 \<and> ml_location_dest_id ml = Some 99
          \<and> ml_package_id ml = Some 5 \<and> ml_result_package_id ml = None)
   \<and> \<not> float_is_zero (1 - 0) (1 / 100) \<and> (1::real) > 0
   \<and> (\<exists>m ml. map move_values (fst (generate_moves ex_env ex_db [ex_line 2 1 2 10 (Some 7) (Some 6) 1 0])) = [m]
          \<and> mv_move_line_ids m = [ml] \<and> mv_product_uom_qty m = 1 \<and> ml_qty_done ml = 1
          \<and> mv_location_id m = Some 99 \<and> mv_location_dest_id m = Some 10
          \<and> ml_location_id ml = Some 99 \<and> ml_location_dest_id ml = Some 10
          \<and> ml_result_package_id ml = Some 6 \<and> ml_package_id ml = None)
   \<and> float_is_zero (5 - 5) (1 / 100)
   \<and> map move_values (fst (generate_moves ex_env ex_db [ex_line 4 1 1 11 None None 5 5])) = []"
proof -
  note per_line = generate_moves_one_move_per_line [of ex_env ex_db "[]", THEN conjunct2, THEN spec]
  have a: "\<exists>m ml. map move_values (fst (generate_moves ex_env ex_db [ex_line 1 1 1 10 None (Some 5) 7 10])) = [m]
          \<and> mv_move_line_ids m = [ml] \<and> mv_product_uom_qty m = 3 \<and> ml_qty_done ml = 3
          \<and> mv_location_id m = Some 10 \<and> mv_location_dest_id m = Some 99
          \<and> ml_location_id ml = Some 10 \<and> ml_location_dest_id ml = Some 99
          \<and> ml_package_id ml = Some 5 \<and> ml_result_package_id ml = None"
    using per_line [of "ex_line 1 1 1 10 None (Some 5) 7 10"] float_is_zero_numeral_examples(1)
    by (simp add: Let_def ex_line_def ex_env_def)
  have b: "\<exists>m ml. map move_values (fst (generate_moves ex_env ex_db [ex_line 2 1 2 10 (Some 7) (Some 6) 1 0])) = [m]
          \<and> mv_move_line_ids m = [ml] \<and> mv_product_uom_qty m = 1 \<and> ml_qty_done ml = 1
          \<and> mv_location_id m = Some 99 \<and> mv_location_dest_id m = Some 10
          \<and> ml_location_id ml = Some 99 \<and> ml_location_dest_id ml = Some 10
          \<and> ml_result_package_id ml = Some 6 \<and> ml_package_id ml = None"
    using per_line [of "ex_line 2 1 2 10 (Some 7) (Some 6) 1 0"] float_is_zero_numeral_examples(2)
    by (simp add: Let_def ex_line_def ex_env_def)
  have c: "map move_values (fst (generate_moves ex_env ex_db [ex_line 4 1 1 11 None None 5 5])) = []"
    using per_line [of "ex_line 4 1 1 11 None None 5 5"] float_is_zero_numeral_examples(3)
    by (simp add: Let_def ex_line_def ex_env_def)
  from a b c float_is_zero_numeral_examples show ?thesis by simp
qed

subsection \<open>A negative counted quantity stops the validation\<close>




subsection \<open>Duplicate dimension keys are refused\<close>

text \<open>
  C3. \<open>duplicate_domain l x\<close> says that \<open>x\<close> is another line (a different id) of the same
  inventory as \<open>l\<close> with the same product, location, owner, package and lot, an empty
  field being equal to an empty field only. When a line being created, or a line
  written, has such a duplicate in the store, \<open>create\<close> and \<open>write\<close> fail, and with the
  duplicate-line error when the required fields and the product constraint pass.
  Hence a successful \<open>create\<close> or \<open>write\<close> keeps the store well formed, and in a
  well-formed store two different lines of one inventory have different dimension keys.
\<close>
theorem duplicate_line_refused:
  "((\<exists>l\<in>set (new_lines e d vals). \<exists>x\<in>set (lines d @ new_lines e d vals). duplicate_domain l x)
      \<longrightarrow> (\<exists>err. fst (create e d vals) = Inl err)
        \<and> (list_all required_set (new_lines e d vals) \<and> check_product_id e (new_lines e d vals) = None
             \<longrightarrow> fst (create e d vals) = Inl UserError_duplicate_line))
   \<and> ((\<exists>l\<in>set (browse_lines (stored_write d ids w) ids).
          \<exists>x\<in>set (lines (stored_write d ids w)). duplicate_domain l x)
      \<longrightarrow> (\<exists>err. fst (write_lines e d ids w) = Inl err)
        \<and> (list_all required_set (browse_lines (stored_write d ids w) ids)
             \<and> (w_product_id w = None \<or> check_product_id e (browse_lines (stored_write d ids w) ids) = None)
             \<longrightarrow> fst (write_lines e d ids w) = Inl UserError_duplicate_line))
   \<and> (store_ok d \<and> create e d vals = (Inr res, d1) \<longrightarrow> store_ok d1)
   \<and> (store_ok d \<and> write_lines e d ids w = (Inr b, d2) \<longrightarrow> store_ok d2)
   \<and> (store_ok d \<longrightarrow> (\<forall>x\<in>set (lines d). \<forall>y\<in>set (lines d).
          x \<noteq> y \<and> inventory_id x = inventory_id y \<longrightarrow> dimension_key x \<noteq> dimension_key y))"
proof (intro conjI impI)
  assume "\<exists>l\<in>set (new_lines e d vals). \<exists>x\<in>set (lines d @ new_lines e d vals). duplicate_domain l x"
  then show "\<exists>err. fst (create e d vals) = Inl err"
    using create_refuses_duplicate by blast
next
  assume "\<exists>l\<in>set (new_lines e d vals). \<exists>x\<in>set (lines d @ new_lines e d vals). duplicate_domain l x"
    and "list_all required_set (new_lines e d vals) \<and> check_product_id e (new_lines e d vals) = None"
  then show "fst (create e d vals) = Inl UserError_duplicate_line"
    using create_duplicate_error by blast
next
  assume "\<exists>l\<in>set (browse_lines (stored_write d ids w) ids).
          \<exists>x\<in>set (lines (stored_write d ids w)). duplicate_domain l x"
  then show "\<exists>err. fst (write_lines e d ids w) = Inl err"
    using write_refuses_duplicate by blast
next
  assume "\<exists>l\<in>set (browse_lines (stored_write d ids w) ids).
          \<exists>x\<in>set (lines (stored_write d ids w)). duplicate_domain l x"
    and "list_all required_set (browse_lines (stored_write d ids w) ids)
             \<and> (w_product_id w = None \<or> check_product_id e (browse_lines (stored_write d ids w) ids) = None)"
  then show "fst (write_lines e d ids w) = Inl UserError_duplicate_line"
    using write_duplicate_error by blast
next
  assume "store_ok d \<and> create e d vals = (Inr res, d1)"
  then show "store_ok d1" using create_preserves_store_ok by blast
next
  assume "store_ok d \<and> write_lines e d ids w = (Inr b, d2)"
  then show "store_ok d2" using write_preserves_store_ok by blast
next
  assume "store_ok d"
  then show "\<forall>x\<in>set (lines d). \<forall>y\<in>set (lines d).
          x \<noteq> y \<and> inventory_id x = inventory_id y \<longrightarrow> dimension_key x \<noteq> dimension_key y"
    using store_ok_pairwise by blast
qed


lemma ex_db_store_ok: "store_ok ex_db"
  using ex_db_ids_distinct ex_db_keys_distinct
  by (simp add: store_ok_def ex_db_def ex_line_def)

lemma ex_new_lines:
  "new_lines ex_env ex_db [ex_vals l pack] =
     [\<lparr> line_id = 5, inventory_id = Some 1, partner_id = None, product_id = Some 1,
        product_uom_id = Some 1, product_qty = 0, location_id = Some l,
        package_id = pack, prod_lot_id = None, theoretical_qty = 0, inventory_date = 1000 \<rparr>]"
  by (simp add: new_lines_def new_line_def complete_values_def ex_vals_def ex_env_def ex_db_def Let_def)

lemma ex_stored_write:
  "lines (stored_write ex_db [4] ex_write) =
     [ex_line 1 1 1 10 None (Some 5) 7 10, ex_line 2 1 2 10 (Some 7) (Some 6) 1 0,
      ex_line 3 2 1 11 None None 4 6, ex_line 4 1 1 10 None (Some 5) 5 5]"
  by (simp add: stored_write_def ex_db_def ex_line_def ex_write_def no_write_def apply_write_def upd_def)

text \<open>On the example store: creating a second line for product 1 at location 10 in
  package 5 with no lot and no owner in inventory 1 fails, as does moving line 4 onto
  that key; creating a line at location 12 succeeds and leaves a well-formed store.\<close>
theorem duplicate_line_refused_witness:
  "fst (create ex_env ex_db [ex_vals 10 (Some 5)]) = Inl UserError_duplicate_line
   \<and> fst (write_lines ex_env ex_db [4] ex_write) = Inl UserError_duplicate_line
   \<and> (\<exists>res d1. create ex_env ex_db [ex_vals 12 None] = (Inr res, d1) \<and> store_ok d1)
   \<and> line_id (ex_line 1 1 1 10 None (Some 5) 7 10) \<noteq> line_id (ex_line 4 1 1 11 None None 5 5)
   \<and> dimension_key (ex_line 1 1 1 10 None (Some 5) 7 10) \<noteq> dimension_key (ex_line 4 1 1 11 None None 5 5)"
proof -
  note t = duplicate_line_refused
  have dup1: "\<exists>l\<in>set (new_lines ex_env ex_db [ex_vals 10 (Some 5)]).
        \<exists>x\<in>set (lines ex_db @ new_lines ex_env ex_db [ex_vals 10 (Some 5)]). duplicate_domain l x"
    unfolding ex_new_lines by (simp add: ex_db_def ex_line_def duplicate_domain_def)
  have ok1: "list_all required_set (new_lines ex_env ex_db [ex_vals 10 (Some 5)])
      \<and> check_product_id ex_env (new_lines ex_env ex_db [ex_vals 10 (Some 5)]) = None"
    unfolding ex_new_lines by (simp add: required_set_def ex_env_def)
  have a: "fst (create ex_env ex_db [ex_vals 10 (Some 5)]) = Inl UserError_duplicate_line"
    using t [of ex_env ex_db "[ex_vals 10 (Some 5)]"] dup1 ok1 by blast
  have br: "browse_lines (stored_write ex_db [4] ex_write) [4] = [ex_line 4 1 1 10 None (Some 5) 5 5]"
    unfolding browse_lines_def ex_stored_write by (simp add: ex_line_def)
  have dup2: "\<exists>l\<in>set (browse_lines (stored_write ex_db [4] ex_write) [4]).
          \<exists>x\<in>set (lines (stored_write ex_db [4] ex_write)). duplicate_domain l x"
    unfolding br ex_stored_write by (simp add: ex_line_def duplicate_domain_def)
  have ok2: "list_all required_set (browse_lines (stored_write ex_db [4] ex_write) [4])
      \<and> (w_product_id ex_write = None
           \<or> check_product_id ex_env (browse_lines (stored_write ex_db [4] ex_write) [4]) = None)"
    unfolding br by (simp add: required_set_def ex_line_def ex_write_def no_write_def)
  have b: "fst (write_lines ex_env ex_db [4] ex_write) = Inl UserError_duplicate_line"
    using t [of ex_env ex_db _ "[4]" ex_write] dup2 ok2 by blast
  have "\<exists>res d1. create ex_env ex_db [ex_vals 12 None] = (Inr res, d1)"
    unfolding create_def ex_new_lines
    by (simp add: Let_def required_set_def ex_env_def ex_db_def ex_line_def duplicate_domain_def)
  then obtain res d1 where cr: "create ex_env ex_db [ex_vals 12 None] = (Inr res, d1)" by blast
  have "store_ok d1"
    using t [of ex_env ex_db "[ex_vals 12 None]" _ _ res d1] ex_db_store_ok cr by blast
  with cr have c: "\<exists>res d1. create ex_env ex_db [ex_vals 12 None] = (Inr res, d1) \<and> store_ok d1"
    by blast
  have m: "ex_line 1 1 1 10 None (Some 5) 7 10 \<in> set (lines ex_db)"
      "ex_line 4 1 1 11 None None 5 5 \<in> set (lines ex_db)"
    by (simp_all add: ex_db_def)
  have ne: "ex_line 1 1 1 10 None (Some 5) 7 10 \<noteq> ex_line 4 1 1 11 None None 5 5
      \<and> inventory_id (ex_line 1 1 1 10 None (Some 5) 7 10) = inventory_id (ex_line 4 1 1 11 None None 5 5)"
    by (simp add: ex_line_def)
  have d: "dimension_key (ex_line 1 1 1 10 None (Some 5) 7 10) \<noteq> dimension_key (ex_line 4 1 1 11 None None 5 5)"
    using t [of ex_env ex_db] ex_db_store_ok m ne by blast
  have i: "line_id (ex_line 1 1 1 10 None (Some 5) 7 10) \<noteq> line_id (ex_line 4 1 1 11 None None 5 5)"
    by (simp add: ex_line_def)
  from a b c d i show ?thesis by blast
qed

subsection \<open>Lines prefilled from the snapshot need no move\<close>

text \<open>
  C4. For an inventory whose prefill mode is the default (counted = theoretical), with
  every rounding positive: the lines that \<open>create\<close> builds from
  \<open>_get_inventory_lines_values\<close> give an empty list of move values; when \<open>create\<close>
  succeeds, \<open>_generate_moves\<close> on the created lines creates no move; and when
  \<open>_action_start\<close> succeeds on a draft inventory that had no line, every line of the
  started inventory has counted = theoretical and \<open>action_check\<close> leaves the inventory
  without a move.
\<close>
theorem prefilled_lines_need_no_move:
  assumes "prefill_counted_quantity inventory = Counted" and "\<forall>u. 0 < rounding e u"
  shows "generate_moves_vals e d' (new_lines e d (get_inventory_lines_values e d inventory)) = []
       \<and> (create e d (get_inventory_lines_values e d inventory) = (Inr res, d1)
            \<longrightarrow> fst (generate_moves e d1 res) = [])
       \<and> (browse_inventory d (Some i) = Some inventory \<and> state inventory = Draft
            \<and> line_ids d i = [] \<and> action_start e d [i] = (Inr (), d2)
            \<longrightarrow> (\<forall>l\<in>set (line_ids d2 i). product_qty l = theoretical_qty l)
              \<and> move_ids (action_check e d2 [i]) i = [])"
proof (intro conjI impI)
  have p: "prefill_counted_quantity inventory \<noteq> Zero" using assms(1) by simp
  show g: "generate_moves_vals e d' (new_lines e d (get_inventory_lines_values e d inventory)) = []" for d'
    by (rule prefilled_lines_no_moves [OF p assms(2)])
  {
    assume "create e d (get_inventory_lines_values e d inventory) = (Inr res, d1)"
    from create_Inr(1) [OF this] show "fst (generate_moves e d1 res) = []"
      by (simp add: generate_moves_def g move_create_Nil)
  }
  assume h: "browse_inventory d (Some i) = Some inventory \<and> state inventory = Draft
            \<and> line_ids d i = [] \<and> action_start e d [i] = (Inr (), d2)"
  then have bal: "\<forall>l\<in>set (line_ids d2 i). difference_qty l = 0"
    using started_lines_balanced [OF _ _ _ p] by blast
  then show "\<forall>l\<in>set (line_ids d2 i). product_qty l = theoretical_qty l"
    by (simp add: difference_qty_def)
  let ?invs = "filter (\<lambda>x. state x \<notin> {Done, Cancel}) (browse_inventories d2 [i])"
  have ids: "\<forall>v\<in>set ?invs. inv_id v = i"
    using inv_id_browse_inventories by fastforce
  have "\<forall>v\<in>set ?invs. \<forall>l\<in>set (line_ids d2 (inv_id v)).
             float_is_zero (difference_qty l) (rounding e (uom_id e (product_id l)))"
    using ids bal assms(2) by (simp add: float_is_zero_0)
  from action_check_loop_no_moves [OF this]
  have m: "moves (action_check e d2 [i]) =
      filter (\<lambda>m. \<not> m2o_in (mv_inventory_id (move_values m)) (map inv_id ?invs)) (moves d2)"
    by (simp add: action_check_def)
  from h obtain v where "v \<in> set ?invs" using started_inventory_checked by blast
  with ids have "i \<in> set (map inv_id ?invs)" by force
  then show "move_ids (action_check e d2 [i]) i = []"
    unfolding move_ids_def m by (auto simp: filter_empty_conv m2o_in_def)
qed

text \<open>On the example store: starting the draft inventory 3 creates the lines (product
  1, 7 of 7) and (product 2, lot 7, 1 of 1) from the quants of location 12, and checking
  it creates no move.\<close>
theorem prefilled_lines_need_no_move_witness:
  "action_start ex_env ex_db [3] = (Inr (), ex_db_started)
   \<and> line_ids ex_db_started 3 = [ex_started_line 5 1 None 7, ex_started_line 6 2 (Some 7) 1]
   \<and> move_ids (action_check ex_env ex_db_started [3]) 3 = []"
proof -
  have p: "prefill_counted_quantity (ex_inventory 3 Draft [12]) = Counted"
    and s: "state (ex_inventory 3 Draft [12]) = Draft"
    by (simp_all add: ex_inventory_def)
  have r: "\<forall>u. 0 < rounding ex_env u" by (simp add: ex_env_def)
  have n: "line_ids ex_db 3 = []"
    by (simp add: line_ids_def ex_db_def ex_line_def)
  have l: "line_ids ex_db_started 3 = [ex_started_line 5 1 None 7, ex_started_line 6 2 (Some 7) 1]"
    by (simp add: line_ids_def ex_db_started_def ex_db_def ex_line_def ex_started_line_def)
  from prefilled_lines_need_no_move [OF p r, of _ ex_db _ _ 3 ex_db_started]
    ex_browse_inventory_3 s n ex_action_start
  have "move_ids (action_check ex_env ex_db_started [3]) 3 = []" by blast
  with ex_action_start l show ?thesis by simp
qed

subsection \<open>The entries of the quantity snapshot\<close>

text \<open>
  C5, as amended. \<open>_get_quantities\<close> has one entry per key. Each entry is the sum of the
  quantities of one or more quant records with that key that pass the domain; each of
  these records has a non-zero quantity (the sum itself can be zero), except for a
  conflict inventory with no lot filter, where each record has a negative quantity and so
  has the entry. With a lot filter the lot of the entry is one of the lots, with a
  product filter its product is one of the products, and with prefill mode zero its
  product is active.
\<close>
theorem get_quantities_entries:
  "distinct (map fst (get_quantities e d inventory)) \<and>
   (\<forall>(k, q)\<in>set (get_quantities e d inventory).
      case k of (product, loc, lot, package, owner) \<Rightarrow>
      let group = filter (\<lambda>x. quant_key x = k) (filter (quant_domain e d inventory) (quants d))
      in group \<noteq> [] \<and> q = sum_list (map quantity group)
       \<and> (\<forall>x\<in>set group. if is_conflict_inventory inventory \<and> lot_ids inventory = []
                           then quantity x < 0 else quantity x \<noteq> 0)
       \<and> (is_conflict_inventory inventory \<and> lot_ids inventory = [] \<longrightarrow> q < 0)
       \<and> (lot_ids inventory \<noteq> [] \<longrightarrow> lot \<in> Some ` set (lot_ids inventory))
       \<and> (product_ids inventory \<noteq> [] \<longrightarrow> product \<in> Some ` set (product_ids inventory))
       \<and> (prefill_counted_quantity inventory = Zero \<longrightarrow> product_active e product))"
proof (rule conjI)
  show "distinct (map fst (get_quantities e d inventory))"
    by (simp add: get_quantities_def distinct_read_group)
next
  let ?fq = "filter (quant_domain e d inventory) (quants d)"
  have "case k of (product, loc, lot, package, owner) \<Rightarrow>
      let group = filter (\<lambda>x. quant_key x = k) ?fq
      in group \<noteq> [] \<and> q = sum_list (map quantity group)
       \<and> (\<forall>x\<in>set group. if is_conflict_inventory inventory \<and> lot_ids inventory = []
                           then quantity x < 0 else quantity x \<noteq> 0)
       \<and> (is_conflict_inventory inventory \<and> lot_ids inventory = [] \<longrightarrow> q < 0)
       \<and> (lot_ids inventory \<noteq> [] \<longrightarrow> lot \<in> Some ` set (lot_ids inventory))
       \<and> (product_ids inventory \<noteq> [] \<longrightarrow> product \<in> Some ` set (product_ids inventory))
       \<and> (prefill_counted_quantity inventory = Zero \<longrightarrow> product_active e product)"
    if kq: "(k, q) \<in> set (get_quantities e d inventory)" for k q
  proof -
    let ?group = "filter (\<lambda>x. quant_key x = k) ?fq"
    obtain product loc lot package owner where k: "k = (product, loc, lot, package, owner)"
      by (cases k)
    from read_group_entry [OF kq [unfolded get_quantities_def]]
    have mem: "k \<in> quant_key ` set ?fq" and q: "q = sum_list (map quantity ?group)" by simp_all
    from mem obtain x0 where "x0 \<in> set ?fq" "quant_key x0 = k" by blast
    then have x0: "x0 \<in> set ?group" by simp
    then have ne: "?group \<noteq> []" by (metis empty_iff empty_set)
    have dom: "quant_domain e d inventory x" if "x \<in> set ?group" for x using that by simp
    have key: "q_product_id x = product \<and> q_lot_id x = lot" if "x \<in> set ?group" for x
      using that k by (simp add: quant_key_def)
    have each: "\<forall>x\<in>set ?group. if is_conflict_inventory inventory \<and> lot_ids inventory = []
                           then quantity x < 0 else quantity x \<noteq> 0"
      using quant_domain_cases(1) [OF dom] by blast
    have neg: "q < 0" if c: "is_conflict_inventory inventory \<and> lot_ids inventory = []"
    proof -
      have "\<forall>y\<in>set (map quantity ?group). y < 0" using each c by auto
      with ne show ?thesis unfolding q by (intro sum_list_negative) simp_all
    qed
    have lot: "lot \<in> Some ` set (lot_ids inventory)" if "lot_ids inventory \<noteq> []"
      using quant_domain_cases(2) [OF dom [OF x0] that] key [OF x0] by simp
    have prod: "product \<in> Some ` set (product_ids inventory)" if "product_ids inventory \<noteq> []"
      using quant_domain_cases(3) [OF dom [OF x0] that] key [OF x0] by simp
    have act: "product_active e product" if "prefill_counted_quantity inventory = Zero"
      using quant_domain_cases(4) [OF dom [OF x0] that] key [OF x0] by simp
    show ?thesis
      unfolding k prod.case Let_def
      using ne q each neg lot prod act unfolding k by blast
  qed
  then show "\<forall>(k, q)\<in>set (get_quantities e d inventory).
      case k of (product, loc, lot, package, owner) \<Rightarrow>
      let group = filter (\<lambda>x. quant_key x = k) (filter (quant_domain e d inventory) (quants d))
      in group \<noteq> [] \<and> q = sum_list (map quantity group)
       \<and> (\<forall>x\<in>set group. if is_conflict_inventory inventory \<and> lot_ids inventory = []
                           then quantity x < 0 else quantity x \<noteq> 0)
       \<and> (is_conflict_inventory inventory \<and> lot_ids inventory = [] \<longrightarrow> q < 0)
       \<and> (lot_ids inventory \<noteq> [] \<longrightarrow> lot \<in> Some ` set (lot_ids inventory))
       \<and> (product_ids inventory \<noteq> [] \<longrightarrow> product \<in> Some ` set (product_ids inventory))
       \<and> (prefill_counted_quantity inventory = Zero \<longrightarrow> product_active e product)"
    by blast
qed

text \<open>
  C5, as stated, fails: the filter on the quantity applies to the quant records, not
  to the sums. Two quants of +5 and -5 for product 1 at location 10 give the entry 0 in
  the snapshot of an inventory that is not a conflict inventory.
\<close>
theorem get_quantities_zero_entry_counterexample:
  "\<not> (is_conflict_inventory (ex_inventory 1 Confirm [10]) \<and> lot_ids (ex_inventory 1 Confirm [10]) = [])
   \<and> ((Some 1, Some 10, None, None, None), 0)
        \<in> set (get_quantities ex_env ex_db_cancelling (ex_inventory 1 Confirm [10]))"
  unfolding ex_get_quantities_cancelling by (simp add: ex_inventory_def)

text \<open>On example stores: a conflict inventory filtered on product 1, prefill zero, sums
  the quants -2 and -3 and leaves +4 out; an inventory filtered on lot 7 keeps the quant
  of that lot.\<close>
theorem get_quantities_entries_witness:
  "((Some 1, Some 12, None, None, None), - 5)
      \<in> set (get_quantities ex_env ex_db_conflict ex_conflict_inventory)
   \<and> is_conflict_inventory ex_conflict_inventory \<and> lot_ids ex_conflict_inventory = []
   \<and> product_ids ex_conflict_inventory \<noteq> []
   \<and> prefill_counted_quantity ex_conflict_inventory = Zero
   \<and> (- 5 :: real) < 0
   \<and> Some 1 \<in> Some ` set (product_ids ex_conflict_inventory)
   \<and> product_active ex_env (Some 1)
   \<and> ((Some 2, Some 12, Some 7, None, None), 1) \<in> set (get_quantities ex_env ex_db ex_lot_inventory)
   \<and> lot_ids ex_lot_inventory \<noteq> []
   \<and> Some 7 \<in> Some ` set (lot_ids ex_lot_inventory)"
proof -
  have m1: "((Some 1, Some 12, None, None, None), - 5)
      \<in> set (get_quantities ex_env ex_db_conflict ex_conflict_inventory)"
    unfolding ex_get_quantities_conflict by simp
  have h1: "is_conflict_inventory ex_conflict_inventory \<and> lot_ids ex_conflict_inventory = []"
    "product_ids ex_conflict_inventory \<noteq> []"
    "prefill_counted_quantity ex_conflict_inventory = Zero"
    by (simp_all add: ex_conflict_inventory_def ex_inventory_def)
  from get_quantities_entries [of ex_env ex_db_conflict ex_conflict_inventory, THEN conjunct2,
      THEN bspec, OF m1] h1
  have c1: "(- 5 :: real) < 0 \<and> Some 1 \<in> Some ` set (product_ids ex_conflict_inventory)
      \<and> product_active ex_env (Some 1)"
    by (simp add: Let_def)
  have m2: "((Some 2, Some 12, Some 7, None, None), 1) \<in> set (get_quantities ex_env ex_db ex_lot_inventory)"
    unfolding ex_get_quantities_lot by simp
  have h2: "lot_ids ex_lot_inventory \<noteq> []"
    by (simp add: ex_lot_inventory_def ex_inventory_def)
  from get_quantities_entries [of ex_env ex_db ex_lot_inventory, THEN conjunct2, THEN bspec, OF m2] h2
  have c2: "Some 7 \<in> Some ` set (lot_ids ex_lot_inventory)"
    by (simp add: Let_def)
  from m1 h1 c1 m2 h2 c2 show ?thesis by blast
qed

subsection \<open>The counted quantity after a change of dimension\<close>

text \<open>
  C6, as amended. For a line of a serial-tracked product, \<open>_onchange_quantity_context\<close>
  sets the counted quantity to 1 whenever a serial number of that product is attached,
  whatever the counted quantity was (zero included). Otherwise (no lot, or a lot of
  another product, which the onchange detaches) the counted quantity becomes the new
  theoretical quantity when it equals the previous theoretical quantity at the rounding
  of the unit, and is left unchanged when it does not.
\<close>
theorem onchange_serial_quantity:
  assumes "tracking_is e (product_id l) Track_serial"
  shows "let l' = onchange_quantity_context e l;
             attached = (prod_lot_id l \<noteq> None \<and> product_id l = lot_product_id e (prod_lot_id l))
         in (attached \<longrightarrow> product_qty l' = 1 \<and> prod_lot_id l' = prod_lot_id l)
          \<and> (\<not> attached \<longrightarrow> prod_lot_id l' = None
               \<and> product_qty l' =
                   (if float_compare (product_qty l) (theoretical_qty l)
                         (rounding e (uom_id e (product_id l))) = 0
                    then theoretical_qty l' else product_qty l))"
  using assms
  by (auto simp: onchange_quantity_context_def tracking_is_def Let_def)

text \<open>
  C6, as stated, fails: the quantity is forced to 1 also when it is zero. A line of the
  serial-tracked product 2 with lot 7 attached, counted 0 and previous theoretical 5
  comes out with counted 1, although 0 differs from 5 and the new theoretical is 9.
\<close>
theorem onchange_serial_quantity_counterexample:
  "tracking_is ex_env_onchange (product_id (ex_line 2 1 2 10 (Some 7) None 0 5)) Track_serial
   \<and> prod_lot_id (ex_line 2 1 2 10 (Some 7) None 0 5) = Some 7
   \<and> product_qty (ex_line 2 1 2 10 (Some 7) None 0 5) = 0
   \<and> theoretical_qty (ex_line 2 1 2 10 (Some 7) None 0 5) = 5
   \<and> theoretical_qty (onchange_quantity_context ex_env_onchange (ex_line 2 1 2 10 (Some 7) None 0 5)) = 9
   \<and> float_compare 0 5 (1 / 100) \<noteq> 0
   \<and> product_qty (onchange_quantity_context ex_env_onchange (ex_line 2 1 2 10 (Some 7) None 0 5)) = 1
   \<and> product_qty (onchange_quantity_context ex_env_onchange (ex_line 2 1 2 10 (Some 7) None 0 5))
       \<noteq> product_qty (ex_line 2 1 2 10 (Some 7) None 0 5)"
  by (simp add: onchange_quantity_context_def tracking_is_def Let_def ex_line_def ex_env_onchange_def
        ex_env_def float_compare_def float_is_zero_def float_round_def)

text \<open>With lot 7 attached a counted 3 becomes 1; without a lot a counted 5 equal to the
  previous theoretical 5 becomes the new theoretical 9, and a counted 4 stays 4.\<close>
theorem onchange_serial_quantity_witness:
  "tracking_is ex_env_onchange (product_id (ex_line 2 1 2 10 (Some 7) None 3 5)) Track_serial
   \<and> product_qty (onchange_quantity_context ex_env_onchange (ex_line 2 1 2 10 (Some 7) None 3 5)) = 1
   \<and> prod_lot_id (onchange_quantity_context ex_env_onchange (ex_line 2 1 2 10 (Some 7) None 3 5)) = Some 7
   \<and> tracking_is ex_env_onchange (product_id (ex_line 2 1 2 10 None None 5 5)) Track_serial
   \<and> float_compare 5 5 (1 / 100) = 0
   \<and> product_qty (onchange_quantity_context ex_env_onchange (ex_line 2 1 2 10 None None 5 5)) = 9
   \<and> float_compare 4 5 (1 / 100) \<noteq> 0
   \<and> product_qty (onchange_quantity_context ex_env_onchange (ex_line 2 1 2 10 None None 4 5)) = 4"
proof -
  have t: "tracking_is ex_env_onchange (product_id (ex_line 2 1 2 10 lot None q th)) Track_serial"
    for lot q th
    by (simp add: tracking_is_def ex_line_def ex_env_onchange_def ex_env_def)
  have f: "float_compare 5 5 (1 / 100) = 0" "float_compare 4 5 (1 / 100) \<noteq> 0"
    by (simp_all add: float_compare_def float_is_zero_def float_round_def)
  have th: "theoretical_qty (onchange_quantity_context ex_env_onchange (ex_line 2 1 2 10 None None 5 5)) = 9"
    by (simp add: onchange_quantity_context_def Let_def ex_line_def ex_env_onchange_def ex_env_def)
  have a: "product_qty (onchange_quantity_context ex_env_onchange (ex_line 2 1 2 10 (Some 7) None 3 5)) = 1
      \<and> prod_lot_id (onchange_quantity_context ex_env_onchange (ex_line 2 1 2 10 (Some 7) None 3 5)) = Some 7"
    using onchange_serial_quantity [OF t, of "Some 7" 3 5]
    by (simp add: Let_def ex_line_def ex_env_onchange_def ex_env_def)
  have b: "product_qty (onchange_quantity_context ex_env_onchange (ex_line 2 1 2 10 None None 5 5)) = 9"
    using onchange_serial_quantity [OF t, of None 5 5] f(1) th
    by (simp add: Let_def ex_line_def ex_env_onchange_def ex_env_def)
  have c: "product_qty (onchange_quantity_context ex_env_onchange (ex_line 2 1 2 10 None None 4 5)) = 4"
    using onchange_serial_quantity [OF t, of None 4 5] f(2)
    by (simp add: Let_def ex_line_def ex_env_onchange_def ex_env_def)
  from t a b c f show ?thesis by blast
qed

subsection \<open>Checking an inventory twice\<close>

text \<open>
  C7. \<open>action_check\<close> changes neither lines nor inventories. For an inventory of the
  selection that is neither done nor cancelled, the moves of the inventory after the
  call are the moves generated from its lines (the moves it had before are gone), so a
  second call in a row leaves every inventory with the same move values as the first.
  The moves of every other inventory are untouched, and when every selected inventory
  is done or cancelled the store is unchanged.
\<close>
theorem action_check_idempotent:
  "let d1 = action_check e d ids;
       d2 = action_check e d1 ids;
       checked = filter (\<lambda>x. state x \<notin> {Done, Cancel}) (browse_inventories d ids)
   in lines d1 = lines d \<and> inventories d1 = inventories d
    \<and> (\<forall>j. map move_values (move_ids d2 j) = map move_values (move_ids d1 j))
    \<and> (\<forall>j\<in>set (map inv_id checked).
          map move_values (move_ids d1 j) = generate_moves_vals e d (line_ids d j))
    \<and> (\<forall>j. j \<notin> set (map inv_id checked) \<longrightarrow> move_ids d1 j = move_ids d j)
    \<and> (checked = [] \<longrightarrow> d1 = d)"
proof -
  define checked where "checked = filter (\<lambda>x. state x \<notin> {Done, Cancel}) (browse_inventories d ids)"
  define d1 where "d1 = action_check e d ids"
  define d2 where "d2 = action_check e d1 ids"
  have d1: "d1 = action_check_loop e d checked"
    by (simp add: d1_def action_check_def checked_def)
  have fr: "lines d1 = lines d" "inventories d1 = inventories d"
    unfolding d1 using action_check_loop_frame [of e d checked] by simp_all
  have d2: "d2 = action_check_loop e d1 checked"
    by (simp add: d2_def action_check_def checked_def browse_inventories_cong [OF fr(2)])
  have g: "generate_moves_vals e d1 (line_ids d1 j) = generate_moves_vals e d (line_ids d j)" for j
    using generate_moves_vals_cong [OF fr(2)] fr(1) by (simp add: line_ids_def)
  have m1: "map move_values (move_ids d1 j) =
     (if j \<in> inv_id ` set checked then generate_moves_vals e d (line_ids d j)
      else map move_values (move_ids d j))" for j
    unfolding d1 by (rule action_check_loop_moves)
  have m2: "map move_values (move_ids d2 j) =
     (if j \<in> inv_id ` set checked then generate_moves_vals e d (line_ids d j)
      else map move_values (move_ids d1 j))" for j
    unfolding d2 action_check_loop_moves g ..
  have same: "map move_values (move_ids d2 j) = map move_values (move_ids d1 j)" for j
    unfolding m2 using m1 [of j] by simp
  have others: "move_ids d1 j = move_ids d j" if "j \<notin> set (map inv_id checked)" for j
    unfolding d1 using that by (intro action_check_loop_others) simp
  have none: "d1 = d" if "checked = []"
    unfolding d1 that by simp
  have "lines d1 = lines d \<and> inventories d1 = inventories d
    \<and> (\<forall>j. map move_values (move_ids d2 j) = map move_values (move_ids d1 j))
    \<and> (\<forall>j\<in>set (map inv_id checked).
          map move_values (move_ids d1 j) = generate_moves_vals e d (line_ids d j))
    \<and> (\<forall>j. j \<notin> set (map inv_id checked) \<longrightarrow> move_ids d1 j = move_ids d j)
    \<and> (checked = [] \<longrightarrow> d1 = d)"
    using fr same m1 others none by simp
  then show ?thesis
    unfolding Let_def d2_def d1_def checked_def .
qed

text \<open>On the example store: checking inventories 1 (confirmed) and 2 (done) gives
  inventory 1 the moves of quantities 3 and 1, a second check gives the same, and
  inventory 2 is left alone.\<close>
theorem action_check_idempotent_witness:
  "filter (\<lambda>x. state x \<notin> {Done, Cancel}) (browse_inventories ex_db [1, 2]) = [ex_inventory 1 Confirm [10]]
   \<and> map move_values (move_ids (action_check ex_env (action_check ex_env ex_db [1, 2]) [1, 2]) 1)
       = map move_values (move_ids (action_check ex_env ex_db [1, 2]) 1)
   \<and> map mv_product_uom_qty (map move_values (move_ids (action_check ex_env ex_db [1, 2]) 1)) = [3, 1]
   \<and> move_ids (action_check ex_env ex_db [1, 2]) 2 = move_ids ex_db 2
   \<and> filter (\<lambda>x. state x \<notin> {Done, Cancel}) (browse_inventories ex_db [2]) = []
   \<and> action_check ex_env ex_db [2] = ex_db"
proof -
  note t = action_check_idempotent [of ex_env ex_db "[1, 2]", unfolded Let_def ex_checked]
  have a: "map move_values (move_ids (action_check ex_env (action_check ex_env ex_db [1, 2]) [1, 2]) 1)
       = map move_values (move_ids (action_check ex_env ex_db [1, 2]) 1)"
    using t by blast
  have "map move_values (move_ids (action_check ex_env ex_db [1, 2]) 1)
      = generate_moves_vals ex_env ex_db (line_ids ex_db 1)"
    using t by (simp add: ex_inventory_def)
  then have b: "map mv_product_uom_qty (map move_values (move_ids (action_check ex_env ex_db [1, 2]) 1)) = [3, 1]"
    using ex_generate_moves_vals by simp
  have c: "move_ids (action_check ex_env ex_db [1, 2]) 2 = move_ids ex_db 2"
    using t by (simp add: ex_inventory_def)
  have d: "action_check ex_env ex_db [2] = ex_db"
    using action_check_idempotent [of ex_env ex_db "[2]", unfolded Let_def ex_checked] by simp
  from a b c d ex_checked show ?thesis by simp
qed

subsection \<open>Cyclic counts: the ancestor wins\<close>

text \<open>
  C8. Among the locations whose next inventory date has arrived, the scheduler keeps
  exactly those with no ancestor among them. So a due location below a kept location is
  skipped, and no kept location is an ancestor of another kept location; the same holds
  for the locations an inventory is created for, which are kept locations.
\<close>
theorem cyclic_locations_ancestor_wins:
  "set (cyclic_locations e d company) =
     {l \<in> set (due_locations e d company).
        \<forall>a\<in>set (path_ancestors l). a \<notin> loc_id ` set (due_locations e d company)}
   \<and> (\<forall>a\<in>set (cyclic_locations e d company). \<forall>l\<in>set (due_locations e d company).
         loc_id a \<in> set (path_ancestors l) \<longrightarrow> l \<notin> set (cyclic_locations e d company))
   \<and> (\<forall>a\<in>set (cyclic_locations e d company). \<forall>l\<in>set (cyclic_locations e d company).
         loc_id a \<notin> set (path_ancestors l))
   \<and> set (locations_to_create e d company) \<subseteq> set (cyclic_locations e d company)
   \<and> (\<forall>a\<in>set (locations_to_create e d company). \<forall>l\<in>set (locations_to_create e d company).
         loc_id a \<notin> set (path_ancestors l))"
proof -
  note s = set_cyclic_locations [of e d company]
  have a: "\<forall>a\<in>set (cyclic_locations e d company). \<forall>l\<in>set (cyclic_locations e d company).
         loc_id a \<notin> set (path_ancestors l)"
    unfolding s by blast
  have b: "\<forall>a\<in>set (cyclic_locations e d company). \<forall>l\<in>set (due_locations e d company).
         loc_id a \<in> set (path_ancestors l) \<longrightarrow> l \<notin> set (cyclic_locations e d company)"
    unfolding s by blast
  have c: "\<forall>a\<in>set (locations_to_create e d company). \<forall>l\<in>set (locations_to_create e d company).
         loc_id a \<notin> set (path_ancestors l)"
    using a set_locations_to_create [of e d company] by blast
  show ?thesis
    using s a b c set_locations_to_create [of e d company]
    by blast
qed

text \<open>On an example store where location 10 and its child 11 are both due: only 10 is
  kept, and 10 is the location an inventory is created for.\<close>
theorem cyclic_locations_ancestor_wins_witness:
  "due_locations ex_env ex_db_cyclic None
     = [ex_location 10 [1, 10] (Some 9), ex_location 11 [1, 10, 11] (Some 10)]
   \<and> cyclic_locations ex_env ex_db_cyclic None = [ex_location 10 [1, 10] (Some 9)]
   \<and> locations_to_create ex_env ex_db_cyclic None = [ex_location 10 [1, 10] (Some 9)]
   \<and> loc_id (ex_location 10 [1, 10] (Some 9)) \<in> set (path_ancestors (ex_location 11 [1, 10, 11] (Some 10)))
   \<and> ex_location 11 [1, 10, 11] (Some 10) \<notin> set (cyclic_locations ex_env ex_db_cyclic None)
   \<and> loc_id (ex_location 10 [1, 10] (Some 9)) \<notin> set (path_ancestors (ex_location 10 [1, 10] (Some 9)))"
proof -
  note t = cyclic_locations_ancestor_wins [of ex_env ex_db_cyclic None]
  have a: "ex_location 10 [1, 10] (Some 9) \<in> set (cyclic_locations ex_env ex_db_cyclic None)"
    unfolding ex_cyclic_locations by simp
  have b: "ex_location 11 [1, 10, 11] (Some 10) \<in> set (due_locations ex_env ex_db_cyclic None)"
    unfolding ex_due_locations by simp
  have c: "loc_id (ex_location 10 [1, 10] (Some 9)) \<in> set (path_ancestors (ex_location 11 [1, 10, 11] (Some 10)))"
    by (simp add: path_ancestors_def ex_location_def)
  have d: "ex_location 11 [1, 10, 11] (Some 10) \<notin> set (cyclic_locations ex_env ex_db_cyclic None)"
    using t a b c by blast
  have f: "loc_id (ex_location 10 [1, 10] (Some 9)) \<notin> set (path_ancestors (ex_location 10 [1, 10] (Some 9)))"
    using t a by blast
  from ex_due_locations ex_cyclic_locations ex_locations_to_create c d f show ?thesis by blast
qed

subsection \<open>Starting an inventory\<close>

text \<open>
  C9. \<open>_action_start\<close> on inventories none of which is a draft returns without an
  error and leaves the store as it is. In any call, an inventory that is not a draft
  keeps its record (state and date included) and its lines, whatever happens to the
  others. A draft that is started alone and succeeds gets state confirm and the date of
  the call, and its lines are created from the snapshot when it had none and is not to
  start empty; otherwise the lines are unchanged.
\<close>
theorem action_start_only_from_draft:
  "((\<forall>i\<in>set ids. \<forall>v. browse_inventory d (Some i) = Some v \<longrightarrow> state v \<noteq> Draft)
      \<longrightarrow> action_start e d ids = (Inr (), d))
   \<and> (browse_inventory d (Some k) = Some v \<and> state v \<noteq> Draft
      \<longrightarrow> browse_inventory (snd (action_start e d ids)) (Some k) = Some v
        \<and> line_ids (snd (action_start e d ids)) k = line_ids d k)
   \<and> (browse_inventory d (Some j) = Some w \<and> state w = Draft \<and> action_start e d [j] = (Inr (), d')
      \<longrightarrow> browse_inventory d' (Some j) = Some (w \<lparr> state := Confirm, date := now e \<rparr>)
        \<and> lines d' = (if line_ids d j = [] \<and> \<not> start_empty w
                       then lines d @ new_lines e d (get_inventory_lines_values e d w)
                       else lines d))"
  using action_start_noop [of ids d e] action_start_frame [of d k v e ids]
    action_start_draft [of d j w e d']
  by blast

text \<open>On the example store: starting the confirmed inventory 1 and the validated
  inventory 2 changes nothing; starting the draft 3 together with 1 leaves inventory 1
  and its lines as they were; starting 3 alone confirms it.\<close>
theorem action_start_only_from_draft_witness:
  "action_start ex_env ex_db [1, 2] = (Inr (), ex_db)
   \<and> state (ex_inventory 1 Confirm [10]) \<noteq> Draft
   \<and> browse_inventory (snd (action_start ex_env ex_db [3, 1])) (Some 1) = Some (ex_inventory 1 Confirm [10])
   \<and> line_ids (snd (action_start ex_env ex_db [3, 1])) 1 = line_ids ex_db 1
   \<and> action_start ex_env ex_db [3] = (Inr (), ex_db_started)
   \<and> browse_inventory ex_db_started (Some 3)
       = Some ((ex_inventory 3 Draft [12]) \<lparr> state := Confirm, date := now ex_env \<rparr>)"
proof -
  have b1: "browse_inventory ex_db (Some 1) = Some (ex_inventory 1 Confirm [10])"
    and b2: "browse_inventory ex_db (Some 2) = Some (ex_inventory 2 Done [11])"
    by (simp_all add: browse_inventory_def ex_db_def ex_inventory_def)
  have s: "state (ex_inventory 1 Confirm [10]) \<noteq> Draft" "state (ex_inventory 2 Done [11]) \<noteq> Draft"
    "state (ex_inventory 3 Draft [12]) = Draft"
    by (simp_all add: ex_inventory_def)
  have "\<forall>i\<in>set [1, 2]. \<forall>v. browse_inventory ex_db (Some i) = Some v \<longrightarrow> state v \<noteq> Draft"
    using b1 b2 s by simp
  then have a: "action_start ex_env ex_db [1, 2] = (Inr (), ex_db)"
    using action_start_only_from_draft [where ids = "[1, 2]" and d = ex_db and e = ex_env] by blast
  have b: "browse_inventory (snd (action_start ex_env ex_db [3, 1])) (Some 1) = Some (ex_inventory 1 Confirm [10])
      \<and> line_ids (snd (action_start ex_env ex_db [3, 1])) 1 = line_ids ex_db 1"
    using action_start_only_from_draft [where d = ex_db and e = ex_env and k = 1
        and v = "ex_inventory 1 Confirm [10]" and ids = "[3, 1]"] b1 s(1)
    by blast
  have c: "browse_inventory ex_db_started (Some 3)
       = Some ((ex_inventory 3 Draft [12]) \<lparr> state := Confirm, date := now ex_env \<rparr>)"
    using action_start_only_from_draft [where d = ex_db and e = ex_env and j = 3
        and w = "ex_inventory 3 Draft [12]" and d' = ex_db_started]
      ex_browse_inventory_3 s(3) ex_action_start
    by blast
  from a b c s(1) ex_action_start show ?thesis by blast
qed

subsection \<open>Resetting the counted quantities\<close>

text \<open>
  C10. In a store whose line ids are unique, whose lines carry their required fields and
  in which no two lines of one inventory share a dimension key,
  \<open>action_reset_product_qty\<close> on the lines \<open>ids\<close> succeeds and returns the store in
  which every line of \<open>ids\<close> whose inventory is not done has \<open>product_qty = 0\<close> and
  is otherwise unchanged; the lines of done inventories, the lines outside \<open>ids\<close> and
  every other table are unchanged.
\<close>
theorem action_reset_product_qty_effect:
  assumes "ids_distinct d" and "keys_distinct d" and "list_all required_set (lines d)"
  shows "action_reset_product_qty e d ids =
           (Inr (), d \<lparr> lines := map (\<lambda>l. if line_id l \<in> set ids \<and> line_state d l \<noteq> Some Done
                                          then l \<lparr> product_qty := 0 \<rparr> else l) (lines d) \<rparr>)"
proof -
  define imp where "imp = impacted_lines d (browse_lines d ids)"
  define w where "w = no_write \<lparr> w_product_qty := Some (0::real) \<rparr>"
  define ls' where "ls' = map (\<lambda>l. if line_id l \<in> set ids \<and> line_state d l \<noteq> Some Done
                                          then l \<lparr> product_qty := 0 \<rparr> else l) (lines d)"
  define d1 where "d1 = d \<lparr> lines := ls' \<rparr>"
  have m: "map (\<lambda>l. if line_id l \<in> set imp then apply_write w l else l) (lines d) = ls'"
    unfolding ls'_def imp_def w_def
    by (rule map_cong) (simp_all add: impacted_member [OF assms(1)] apply_write_qty)
  have wp: "w_product_id w = None" by (simp add: w_def no_write_def)
  have req: "list_all required_set (lines d1)"
    using assms(3) by (auto simp: d1_def ls'_def list_all_iff required_set_def)
  have "map (\<lambda>l. (inventory_id l, dimension_key l)) ls' = map (\<lambda>l. (inventory_id l, dimension_key l)) (lines d)"
    by (simp add: ls'_def dimension_key_def comp_def)
  then have kd: "keys_distinct d1"
    using assms(2) by (simp add: keys_distinct_def d1_def)
  have sub: "set (browse_lines d1 imp) \<subseteq> set (lines d1)"
    by (auto simp: set_browse_lines)
  have r1: "list_all required_set (browse_lines d1 imp)"
    using req sub by (auto simp: list_all_iff)
  have r2: "check_no_duplicate_line d1 (browse_lines d1 imp) = None"
    unfolding check_no_duplicate_line_None
    using keys_distinct_no_duplicate [OF kd] sub by blast
  have "write_lines e d imp w = (Inr True, d1)"
    unfolding write_lines_def stored_write_def Let_def m d1_def [symmetric]
    using r1 r2 wp by simp
  then show ?thesis
    unfolding action_reset_product_qty_def imp_def [symmetric] w_def [symmetric] d1_def ls'_def
    by simp
qed



text \<open>On the example store: line 1 (confirmed inventory) is reset, line 3 (done
  inventory) keeps its quantity.\<close>
theorem action_reset_product_qty_witness:
  "action_reset_product_qty ex_env ex_db [1, 3] =
     (Inr (), ex_db \<lparr> lines := [ex_line 1 1 1 10 None (Some 5) 0 10,
                               ex_line 2 1 2 10 (Some 7) (Some 6) 1 0,
                               ex_line 3 2 1 11 None None 4 6,
                               ex_line 4 1 1 11 None None 5 5] \<rparr>)"
  using action_reset_product_qty_effect [OF ex_db_ids_distinct ex_db_keys_distinct ex_db_required, of ex_env "[1, 3]"]
  by (simp add: ex_db_def ex_line_def ex_inventory_def line_state_def browse_inventory_def)


end
